theory Spec2Isabelle
  imports Complex_Main "HOL-Library.Sublist"
begin

section \<open>Risk classification\<close>

text \<open>
  The three helpers of \<^verbatim>\<open>src/App.jsx\<close>, lines 26-28.  The risk score of a
  sensor record is an integer, so the argument is an \<^typ>\<open>int\<close>.
  \<^verbatim>\<open>
  const RISK_COLOR = (r) => (r < 30 ? "#00e5c0" : r < 60 ? "#f5a623" : "#ff3b5c");
  const RISK_COLOR_HEX = (r) => (r < 30 ? 0x00e5c0 : r < 60 ? 0xf5a623 : 0xff3b5c);
  const RISK_LABEL = (r) => (r < 30 ? "NOMINAL" : r < 60 ? "WATCH" : "CRITICAL");
  \<close>
\<close>

definition RISK_COLOR :: "int \<Rightarrow> string" where
  "RISK_COLOR r = (if r < 30 then ''#00e5c0'' else if r < 60 then ''#f5a623'' else ''#ff3b5c'')"

definition RISK_COLOR_HEX :: "int \<Rightarrow> nat" where
  "RISK_COLOR_HEX r = (if r < 30 then 58816 else if r < 60 then 16098851 else 16726876)"

definition RISK_LABEL :: "int \<Rightarrow> string" where
  "RISK_LABEL r = (if r < 30 then ''NOMINAL'' else if r < 60 then ''WATCH'' else ''CRITICAL'')"

text \<open>
  The three bands, ordered by severity, and the reading of each helper's result as a
  band: teal is nominal, amber is watch, red is critical.
\<close>

datatype risk_band = Nominal | Watch | Critical

fun severity :: "risk_band \<Rightarrow> nat" where
  "severity Nominal = 0"
| "severity Watch = 1"
| "severity Critical = 2"

definition band_of_color :: "string \<Rightarrow> risk_band option" where
  "band_of_color c =
     (if c = ''#00e5c0'' then Some Nominal
      else if c = ''#f5a623'' then Some Watch
      else if c = ''#ff3b5c'' then Some Critical
      else None)"

definition band_of_hex :: "nat \<Rightarrow> risk_band option" where
  "band_of_hex h =
     (if h = 58816 then Some Nominal
      else if h = 16098851 then Some Watch
      else if h = 16726876 then Some Critical
      else None)"

definition band_of_label :: "string \<Rightarrow> risk_band option" where
  "band_of_label l =
     (if l = ''NOMINAL'' then Some Nominal
      else if l = ''WATCH'' then Some Watch
      else if l = ''CRITICAL'' then Some Critical
      else None)"

definition in_band :: "risk_band \<Rightarrow> int \<Rightarrow> bool" where
  "in_band b r = (band_of_label (RISK_LABEL r) = Some b)"


section \<open>JavaScript numbers\<close>

text \<open>
  A JavaScript number is modelled as a real number or \<open>NaN\<close> (\<open>None\<close>): the only
  non-numbers that the viewer can produce come from reading a coordinate of a touch that
  is not there.  Rounding and the infinities are not modelled.  Every arithmetic operator
  returns \<open>NaN\<close> as soon as one operand is \<open>NaN\<close>, and every comparison with
  \<open>NaN\<close> is false, as in the language.
\<close>

type_synonym jsnum = "real option"

definition js_lift2 :: "(real \<Rightarrow> real \<Rightarrow> real) \<Rightarrow> jsnum \<Rightarrow> jsnum \<Rightarrow> jsnum" where
  "js_lift2 f a b =
     (case a of None \<Rightarrow> None
      | Some x \<Rightarrow> (case b of None \<Rightarrow> None | Some y \<Rightarrow> Some (f x y)))"

definition js_add :: "jsnum \<Rightarrow> jsnum \<Rightarrow> jsnum" where
  "js_add = js_lift2 (\<lambda>x y. x + y)"

definition js_sub :: "jsnum \<Rightarrow> jsnum \<Rightarrow> jsnum" where
  "js_sub = js_lift2 (\<lambda>x y. x - y)"

definition js_mul :: "jsnum \<Rightarrow> jsnum \<Rightarrow> jsnum" where
  "js_mul = js_lift2 (\<lambda>x y. x * y)"

definition js_min :: "jsnum \<Rightarrow> jsnum \<Rightarrow> jsnum" where
  \<comment> \<open>\<^verbatim>\<open>Math.min\<close>\<close>
  "js_min = js_lift2 min"

definition js_max :: "jsnum \<Rightarrow> jsnum \<Rightarrow> jsnum" where
  \<comment> \<open>\<^verbatim>\<open>Math.max\<close>\<close>
  "js_max = js_lift2 max"

definition js_abs :: "jsnum \<Rightarrow> jsnum" where
  \<comment> \<open>\<^verbatim>\<open>Math.abs\<close>\<close>
  "js_abs a = map_option abs a"

definition js_lt :: "jsnum \<Rightarrow> jsnum \<Rightarrow> bool" where
  "js_lt a b =
     (case a of None \<Rightarrow> False
      | Some x \<Rightarrow> (case b of None \<Rightarrow> False | Some y \<Rightarrow> x < y))"

text \<open>
  \<^verbatim>\<open>const clamp = (v, min, max) => Math.min(Math.max(v, min), max);\<close>
\<close>

definition clamp :: "jsnum \<Rightarrow> jsnum \<Rightarrow> jsnum \<Rightarrow> jsnum" where
  "clamp v lo hi = js_min (js_max v lo) hi"

section \<open>Device detection\<close>

text \<open>
  Line 357:
  \<^verbatim>\<open>const isMobile = /iPhone|iPad|iPod|Android/i.test(navigator.userAgent) || window.innerWidth < 768;\<close>
  The regular expression has no anchors, so it succeeds when one of the four words occurs
  anywhere in the user-agent string.  With the \<^verbatim>\<open>i\<close> flag both sides are compared
  after canonicalisation, which upper-cases a character; a character outside ASCII is never
  identified with an ASCII one, so on the words of the pattern only the 26 letters fold.
\<close>

definition canonicalize :: "char \<Rightarrow> nat" where
  \<comment> \<open>the code of the canonical character; 97 and 122 are the codes of a and z\<close>
  "canonicalize c =
     (let n = (of_char c :: nat) in if 97 \<le> n \<and> n \<le> 122 then n - 32 else n)"

fun matches_here :: "string \<Rightarrow> string \<Rightarrow> bool" where
  \<comment> \<open>the word, then the input: the word is read at the start of the input\<close>
  "matches_here [] s = True"
| "matches_here (p # ps) [] = False"
| "matches_here (p # ps) (c # cs) = (canonicalize p = canonicalize c \<and> matches_here ps cs)"

fun regex_test :: "string list \<Rightarrow> string \<Rightarrow> bool" where
  \<comment> \<open>an alternation of literal words, tried at every start position\<close>
  "regex_test ws [] = (\<exists>w \<in> set ws. matches_here w [])"
| "regex_test ws (c # cs) = ((\<exists>w \<in> set ws. matches_here w (c # cs)) \<or> regex_test ws cs)"

definition handheld_pattern :: "string list" where
  "handheld_pattern = [''iPhone'', ''iPad'', ''iPod'', ''Android'']"

definition detect_mobile :: "string \<Rightarrow> int \<Rightarrow> bool" where
  \<comment> \<open>\<open>navigator.userAgent\<close> and \<open>window.innerWidth\<close>\<close>
  "detect_mobile userAgent innerWidth = (regex_test handheld_pattern userAgent \<or> innerWidth < 768)"

text \<open>
  The values that the mount effect derives from \<open>isMobile\<close> (lines 358-359, 363, 396,
  426, 435, 449, 513, 526, 538, 549, 567, 637-638, 649, 653, 659) are locals of that
  effect; they are collected in one record here.
\<close>

record device_profile =
  isConstrained :: bool
  pixelRatio :: real
  geometryDetail :: nat
  antialias :: bool
  gridSize :: nat
  windshieldDetail :: nat
  engineDetail :: nat
  exhaustDetail :: nat
  sensorDetail :: nat
  pitotTube :: bool
  apuExhaust :: bool
  intakeLip :: bool
  connectorStub :: bool
  targetFPS :: real
  frameInterval :: real
  timeIncrement :: real
  idleRotation :: real
  animSpeed :: real

definition targetFPS_of :: "bool \<Rightarrow> real" where
  "targetFPS_of mobile = (if mobile then 30 else 60)"

definition frameInterval_of :: "bool \<Rightarrow> real" where
  "frameInterval_of mobile = 1000 / targetFPS_of mobile"

definition timeIncrement_of :: "bool \<Rightarrow> real" where
  \<comment> \<open>line 649: \<^verbatim>\<open>t+=isMobile ? 0.024 : 0.016;\<close>\<close>
  "timeIncrement_of mobile = (if mobile then 0.024 else 0.016)"

definition idleRotation_of :: "bool \<Rightarrow> real" where
  \<comment> \<open>line 653: \<^verbatim>\<open>aircraft.rotation.y+=isMobile ? 0.0015 : 0.0025;\<close>\<close>
  "idleRotation_of mobile = (if mobile then 0.0015 else 0.0025)"

definition animSpeed_of :: "bool \<Rightarrow> real" where
  \<comment> \<open>line 659: \<^verbatim>\<open>const animSpeed = isMobile ? 1.5 : 2.5;\<close>\<close>
  "animSpeed_of mobile = (if mobile then 1.5 else 2.5)"

definition resolve_profile :: "string \<Rightarrow> int \<Rightarrow> real \<Rightarrow> device_profile" where
  \<comment> \<open>user agent, \<open>window.innerWidth\<close>, \<open>window.devicePixelRatio\<close>\<close>
  "resolve_profile userAgent innerWidth devicePixelRatio =
     (let mobile = detect_mobile userAgent innerWidth in
      \<lparr> isConstrained = mobile,
        pixelRatio = (if mobile then min devicePixelRatio 1.2 else min devicePixelRatio 2),
        geometryDetail = (if mobile then 12 else 24),
        antialias = (\<not> mobile),
        gridSize = (if mobile then 14 else 28),
        windshieldDetail = (if mobile then 8 else 16),
        engineDetail = (if mobile then 12 else 20),
        exhaustDetail = (if mobile then 10 else 16),
        sensorDetail = (if mobile then 8 else 14),
        pitotTube = (\<not> mobile),
        apuExhaust = (\<not> mobile),
        intakeLip = (\<not> mobile),
        connectorStub = (\<not> mobile),
        targetFPS = targetFPS_of mobile,
        frameInterval = frameInterval_of mobile,
        timeIncrement = timeIncrement_of mobile,
        idleRotation = idleRotation_of mobile,
        animSpeed = animSpeed_of mobile \<rparr>)"

section \<open>Sensor records and marker construction\<close>

text \<open>
  A sensor record as the viewer reads it: \<open>id\<close>, \<open>name\<close>, \<open>pos\<close> and
  \<open>risk\<close> (the \<open>subsystem\<close>, \<open>signals\<close> and \<open>note\<close> strings are only displayed).
  A field that may be absent from the object is an option: reading it then gives
  \<open>undefined\<close>.
\<close>

record sensor =
  sid :: "string option"
  name :: string
  pos :: "(real \<times> real \<times> real) option"
  risk :: int

text \<open>
  An identifier as the viewer compares it with \<^verbatim>\<open>===\<close>: \<open>null\<close>,
  \<open>undefined\<close> or a string.
\<close>

datatype jsid = Null | Undefined | Id string

definition id_of :: "sensor \<Rightarrow> jsid" where
  \<comment> \<open>\<^verbatim>\<open>sensor.id\<close>\<close>
  "id_of x = (case sid x of None \<Rightarrow> Undefined | Some i \<Rightarrow> Id i)"

definition opt_id :: "sensor option \<Rightarrow> jsid" where
  \<comment> \<open>\<^verbatim>\<open>selected?.id\<close>\<close>
  "opt_id v = (case v of None \<Rightarrow> Undefined | Some x \<Rightarrow> id_of x)"

text \<open>
  The objects that marker construction adds to the sensor group, each with its position
  and colour, and the core mesh as the animation loop and the hit test use it: the
  sensor of its \<open>userData\<close>, its scale, the emissive intensity of its material and the
  opacity of the material of its glow shell.
\<close>

datatype scene_obj =
    GlowMesh "real \<times> real \<times> real" nat
  | CoreMesh "real \<times> real \<times> real" nat
  | ConnectorLine "real \<times> real \<times> real" nat

record marker =
  m_sensor :: sensor
  m_scale :: real
  emissiveIntensity :: real
  glowOpacity :: real

datatype error = TypeError

type_synonym marker_layer = "scene_obj list \<times> marker list"

text \<open>
  The body of the loop of lines 550-573.  The first use of \<^verbatim>\<open>...sensor.pos\<close>
  (line 556) throws a \<open>TypeError\<close> when the field is absent, before anything of this
  record is added to the group; nothing in the body reads \<open>sensor.id\<close>.  The end point
  of the connector stroke is left out of the model.
\<close>

definition build_marker :: "bool \<Rightarrow> sensor \<Rightarrow> marker_layer \<Rightarrow> error + marker_layer" where
  "build_marker mobile x layer =
     (let col = RISK_COLOR_HEX (risk x) in
      case pos x of
        None \<Rightarrow> Inl TypeError
      | Some p \<Rightarrow>
          Inr (fst layer @ [GlowMesh p col, CoreMesh p col]
                 @ (if \<not> mobile then [ConnectorLine p col] else []),
               snd layer @ [\<lparr> m_sensor = x, m_scale = 1, emissiveIntensity = 0.75,
                                glowOpacity = 0.11 \<rparr>]))"

fun build_markers :: "bool \<Rightarrow> sensor list \<Rightarrow> marker_layer \<Rightarrow> error + marker_layer" where
  \<comment> \<open>\<^verbatim>\<open>SENSORS_3D.forEach(...)\<close>: the exception of one record ends the loop\<close>
  "build_markers mobile [] layer = Inr layer"
| "build_markers mobile (x # xs) layer =
     (case build_marker mobile x layer of
        Inl e \<Rightarrow> Inl e
      | Inr layer' \<Rightarrow> build_markers mobile xs layer')"

section \<open>The viewer\<close>

text \<open>
  The state of one mounted viewer: the closure variables of the mount effect (lines 576
  and 636), the rotation of the aircraft group, the hover and selection state, the core
  meshes, and the part of the browser that the effect talks to: the registered
  listeners, the pending animation-frame requests, the number of frames rendered so
  far, whether the canvas is in the document and whether the renderer was disposed.
  \<open>camera.aspect\<close> is kept as the pair whose quotient it is.
\<close>

datatype target = Mount | Window

datatype evtype =
  MouseDown | MouseMove | MouseUp | TouchStart | TouchMove | TouchEnd | TouchCancel | Resize

datatype handler = OnDown | OnMove | OnUp | OnResize

record viewer =
  isMobile :: bool
  isDragging :: bool
  dragDist :: jsnum
  lastX :: jsnum
  lastY :: jsnum
  velX :: jsnum
  rafId :: "nat option"
  t :: real
  lastFrameTime :: real
  rotationX :: jsnum
  rotationY :: jsnum
  hoveredId :: jsid
  selectedId :: jsid
  selected :: "sensor option"
  cursor :: string
  sensorMeshes :: "marker list"
  cameraAspect :: "real \<times> real"
  rendererSize :: "real \<times> real"
  listeners :: "(target \<times> evtype \<times> handler) list"
  rafQueue :: "nat list"
  rafCounter :: nat
  frames :: nat
  canvasAttached :: bool
  disposed :: bool

text \<open>
  What a handler reads from the document when it runs: the bounding rectangle of the
  mount element (its left and top edge) and the client size of the mount element.
\<close>

record dom_env =
  rectLeft :: real
  rectTop :: real
  clientWidth :: real
  clientHeight :: real

text \<open>
  A mouse event has \<open>clientX\<close> and \<open>clientY\<close> and no \<open>touches\<close>.  A touch
  event has \<open>touches\<close>, the touches that are on the surface, and
  \<open>changedTouches\<close>, the touches that the event is about (for a \<open>touchend\<close>
  event, the touches that were lifted, which are no longer in \<open>touches\<close>); each touch
  is given by its \<open>clientX\<close> and \<open>clientY\<close>.
\<close>

datatype dom_event =
    MouseEvent real real
  | TouchEvent "(real \<times> real) list" "(real \<times> real) list"

text \<open>
  Lines 577-582.  \<^verbatim>\<open>e.touches[0]?.clientX\<close> is \<open>undefined\<close> when the list is
  empty, and \<open>undefined - r.left\<close> is \<open>NaN\<close>.
\<close>

definition getXY :: "dom_env \<Rightarrow> dom_event \<Rightarrow> jsnum \<times> jsnum" where
  "getXY r e =
     (let clientX = (case e of
                       TouchEvent ts cs \<Rightarrow> (case ts of [] \<Rightarrow> None | p # _ \<Rightarrow> Some (fst p))
                     | MouseEvent x y \<Rightarrow> Some x);
          clientY = (case e of
                       TouchEvent ts cs \<Rightarrow> (case ts of [] \<Rightarrow> None | p # _ \<Rightarrow> Some (snd p))
                     | MouseEvent x y \<Rightarrow> Some y)
      in (js_sub clientX (Some (rectLeft r)), js_sub clientY (Some (rectTop r))))"

text \<open>
  The ray cast of lines 603-606 and 615-618 belongs to the rendering library.  It is a
  parameter \<open>rc\<close> of the handlers: from the state of the viewer and the coordinates
  \<open>cx\<close>, \<open>cy\<close> it gives the sensors of the core meshes that the ray through that point
  meets, nearest first (the scaling of the coordinates by the size of the mount element
  is part of it).
\<close>

type_synonym raycast = "viewer \<Rightarrow> jsnum \<Rightarrow> jsnum \<Rightarrow> sensor list"

definition first_hit :: "sensor list \<Rightarrow> sensor option" where
  \<comment> \<open>\<^verbatim>\<open>hits.length>0 ? hits[0].object.userData.sensor : null\<close>\<close>
  "first_hit hits = (case hits of [] \<Rightarrow> None | h # _ \<Rightarrow> Some h)"

definition setSelected :: "sensor option \<Rightarrow> viewer \<Rightarrow> viewer" where
  \<comment> \<open>the state update, with the effect of line 692 that copies the id into \<open>stateRef\<close>\<close>
  "setSelected v s = s\<lparr> selected := v, selectedId := opt_id v \<rparr>"

definition onDown :: "dom_env \<Rightarrow> dom_event \<Rightarrow> viewer \<Rightarrow> viewer" where
  "onDown r e s =
     (let xy = getXY r e in
      s\<lparr> isDragging := True, dragDist := Some 0, lastX := fst xy, lastY := snd xy \<rparr>)"

definition drag :: "jsnum \<Rightarrow> jsnum \<Rightarrow> viewer \<Rightarrow> viewer" where
  \<comment> \<open>lines 594-599, the body of \<^verbatim>\<open>if(isDragging)\<close>\<close>
  "drag cx cy s =
     (let dx = js_sub cx (lastX s); dy = js_sub cy (lastY s) in
      s\<lparr> dragDist := js_add (dragDist s) (js_add (js_abs dx) (js_abs dy)),
         rotationY := js_add (rotationY s) (js_mul dx (Some 0.012)),
         rotationX := clamp (js_add (rotationX s) (js_mul dy (Some 0.006)))
                        (Some (- 0.7)) (Some 0.7),
         velX := js_mul dx (Some 0.012),
         lastX := cx, lastY := cy \<rparr>)"

definition hover :: "raycast \<Rightarrow> jsnum \<Rightarrow> jsnum \<Rightarrow> viewer \<Rightarrow> viewer" where
  \<comment> \<open>lines 603-608, the body of \<^verbatim>\<open>if(!e.touches)\<close>\<close>
  "hover rc cx cy s =
     (let hits = rc s cx cy in
      s\<lparr> hoveredId := (case hits of [] \<Rightarrow> Null | h # _ \<Rightarrow> id_of h),
         cursor := (if hits \<noteq> [] then ''pointer'' else ''grab'') \<rparr>)"

definition onMove :: "raycast \<Rightarrow> dom_env \<Rightarrow> dom_event \<Rightarrow> viewer \<Rightarrow> viewer" where
  "onMove rc r e s =
     (let xy = getXY r e;
          s1 = (if isDragging s then drag (fst xy) (snd xy) s else s)
      in case e of
           TouchEvent ts cs \<Rightarrow> s1
         | MouseEvent x y \<Rightarrow> hover rc (fst xy) (snd xy) s1)"

definition onUp :: "raycast \<Rightarrow> dom_env \<Rightarrow> dom_event \<Rightarrow> viewer \<Rightarrow> viewer" where
  "onUp rc r e s =
     (let s1 = (if js_lt (dragDist s) (Some 6)
                then (let xy = getXY r e; hits = rc s (fst xy) (snd xy)
                      in setSelected (first_hit hits) s)
                else s)
      in s1\<lparr> isDragging := False \<rparr>)"

definition onResize :: "dom_env \<Rightarrow> viewer \<Rightarrow> viewer" where
  \<comment> \<open>lines 669-673; \<open>setSize\<close> draws nothing\<close>
  "onResize r s =
     s\<lparr> cameraAspect := (clientWidth r, clientHeight r),
        rendererSize := (clientWidth r, clientHeight r) \<rparr>"

section \<open>The animation loop\<close>

text \<open>
  Lines 655-664.  The three values written to a marker in a frame, from whether its
  sensor is the selected one, whether it is the hovered one, and the sine \<open>ph\<close> of its
  phase.
\<close>

definition phase :: "bool \<Rightarrow> real \<Rightarrow> nat \<Rightarrow> real" where
  \<comment> \<open>\<^verbatim>\<open>Math.sin(t*animSpeed+i*0.62)\<close>\<close>
  "phase mobile tm i = sin (tm * animSpeed_of mobile + real i * 0.62)"

definition scale_tier :: "bool \<Rightarrow> bool \<Rightarrow> real \<Rightarrow> real" where
  "scale_tier isSel isHov ph = (if isSel then 1.6 else if isHov then 1.3 else 0.88 + 0.28 * ph)"

definition emissive_tier :: "bool \<Rightarrow> bool \<Rightarrow> real \<Rightarrow> real" where
  "emissive_tier isSel isHov ph = (if isSel then 1.3 else if isHov then 1.0 else 0.5 + 0.35 * ph)"

definition opacity_tier :: "bool \<Rightarrow> bool \<Rightarrow> real \<Rightarrow> real" where
  "opacity_tier isSel isHov ph = (if isSel then 0.38 else if isHov then 0.26 else 0.08 + 0.07 * ph)"

definition pulse_marker :: "viewer \<Rightarrow> nat \<Rightarrow> marker \<Rightarrow> marker" where
  "pulse_marker s i m =
     (let isSel = (id_of (m_sensor m) = selectedId s);
          isHov = (id_of (m_sensor m) = hoveredId s);
          ph = phase (isMobile s) (t s) i
      in m\<lparr> m_scale := scale_tier isSel isHov ph,
            emissiveIntensity := emissive_tier isSel isHov ph,
            glowOpacity := opacity_tier isSel isHov ph \<rparr>)"

definition spin :: "viewer \<Rightarrow> viewer" where
  \<comment> \<open>lines 651-653, the body of \<^verbatim>\<open>if(!isDragging)\<close>\<close>
  "spin s =
     s\<lparr> rotationY := js_add (js_add (rotationY s) (js_mul (velX s) (Some 0.94)))
                        (Some (idleRotation_of (isMobile s))),
        velX := js_mul (velX s) (Some 0.94) \<rparr>"

definition frame_body :: "real \<Rightarrow> viewer \<Rightarrow> viewer" where
  \<comment> \<open>lines 647-665: an executed step of the loop, at time stamp \<open>currentTime\<close>\<close>
  "frame_body currentTime s =
     (let s1 = s\<lparr> lastFrameTime := currentTime,
                   t := t s + timeIncrement_of (isMobile s) \<rparr>;
          s2 = (if \<not> isDragging s1 then spin s1 else s1);
          s3 = s2\<lparr> sensorMeshes :=
                      map (\<lambda>(i, m). pulse_marker s2 i m) (enumerate 0 (sensorMeshes s2)) \<rparr>
      in s3\<lparr> frames := Suc (frames s3) \<rparr>)"

definition requestAnimationFrame :: "viewer \<Rightarrow> viewer" where
  \<comment> \<open>\<^verbatim>\<open>rafId=requestAnimationFrame(animate)\<close>: a fresh handle, queued\<close>
  "requestAnimationFrame s =
     s\<lparr> rafId := Some (rafCounter s),
        rafQueue := rafQueue s @ [rafCounter s],
        rafCounter := Suc (rafCounter s) \<rparr>"

definition animate :: "real \<Rightarrow> viewer \<Rightarrow> viewer" where
  \<comment> \<open>lines 640-666\<close>
  "animate currentTime s =
     (let s1 = requestAnimationFrame s in
      if isMobile s1 \<and> currentTime - lastFrameTime s1 < frameInterval_of (isMobile s1)
      then s1
      else frame_body currentTime s1)"

text \<open>
  A run of executed steps of the loop, one for each time stamp of the list, with no
  pointer event in between.
\<close>

definition executed_steps :: "real list \<Rightarrow> viewer \<Rightarrow> viewer" where
  "executed_steps stamps s = foldl (\<lambda>s' currentTime. frame_body currentTime s') s stamps"

section \<open>Mounting and tearing down\<close>

definition addEventListener ::
  "target \<times> evtype \<times> handler \<Rightarrow> (target \<times> evtype \<times> handler) list
     \<Rightarrow> (target \<times> evtype \<times> handler) list" where
  "addEventListener l ls = (if l \<in> set ls then ls else ls @ [l])"

definition removeEventListener ::
  "target \<times> evtype \<times> handler \<Rightarrow> (target \<times> evtype \<times> handler) list
     \<Rightarrow> (target \<times> evtype \<times> handler) list" where
  "removeEventListener l ls = removeAll l ls"

definition pointer_listeners :: "(target \<times> evtype \<times> handler) list" where
  \<comment> \<open>lines 625-633, in the order of registration\<close>
  "pointer_listeners =
     [(Mount, MouseDown, OnDown), (Window, MouseMove, OnMove), (Window, MouseUp, OnUp),
      (Mount, TouchStart, OnDown), (Mount, TouchMove, OnMove), (Mount, TouchEnd, OnUp),
      (Mount, TouchCancel, OnUp)]"

definition cancelAnimationFrame :: "nat option \<Rightarrow> viewer \<Rightarrow> viewer" where
  "cancelAnimationFrame h s =
     (case h of None \<Rightarrow> s | Some k \<Rightarrow> s\<lparr> rafQueue := removeAll k (rafQueue s) \<rparr>)"

definition cleanup :: "viewer \<Rightarrow> viewer" where
  \<comment> \<open>lines 676-688, the function that the mount effect returns\<close>
  "cleanup s =
     (let s1 = cancelAnimationFrame (rafId s) s;
          s2 = s1\<lparr> listeners :=
                      foldl (\<lambda>ls l. removeEventListener l ls) (listeners s1)
                        (pointer_listeners @ [(Window, Resize, OnResize)]) \<rparr>;
          s3 = (if canvasAttached s2 then s2\<lparr> canvasAttached := False \<rparr> else s2)
      in s3\<lparr> disposed := True \<rparr>)"

text \<open>
  The mount effect (lines 351-675) followed by the effect of line 692.  The device is
  classified, the markers are built, the pointer listeners are registered, the first
  step of the loop runs with time stamp 0, and the resize listener is registered.  The
  static parts of the scene have no part in the claims and are left out.  An exception
  of marker construction leaves the effect, so that no viewer results.
\<close>

definition mountViewer ::
  "string \<Rightarrow> int \<Rightarrow> dom_env \<Rightarrow> sensor list \<Rightarrow> error + viewer" where
  "mountViewer userAgent innerWidth r sensors =
     (let mobile = detect_mobile userAgent innerWidth in
      case build_markers mobile sensors ([], []) of
        Inl e \<Rightarrow> Inl e
      | Inr layer \<Rightarrow>
          (let s0 = \<lparr> isMobile = mobile, isDragging = False, dragDist = Some 0,
                       lastX = Some 0, lastY = Some 0, velX = Some 0, rafId = None,
                       t = 0, lastFrameTime = 0, rotationX = Some 0, rotationY = Some 0,
                       hoveredId = Null, selectedId = Null, selected = None,
                       cursor = ''grab'', sensorMeshes = snd layer,
                       cameraAspect = (clientWidth r, clientHeight r),
                       rendererSize = (clientWidth r, clientHeight r),
                       listeners = foldl (\<lambda>ls l. addEventListener l ls) [] pointer_listeners,
                       rafQueue = [], rafCounter = 1, frames = 0,
                       canvasAttached = True, disposed = False \<rparr>;
               s1 = animate 0 s0;
               s2 = s1\<lparr> listeners := addEventListener (Window, Resize, OnResize) (listeners s1) \<rparr>
           in Inr (s2\<lparr> selectedId := opt_id (selected s2) \<rparr>)))"

text \<open>
  What can happen to a mounted viewer: the browser dispatches an event of some type at
  the mount element or at the window, and every listener registered for it runs; the
  browser runs the pending animation-frame callbacks with a time stamp; the component
  is unmounted and the cleanup function runs; or a resize callback that was already
  under way is invoked directly.
\<close>

datatype action =
    Dispatch target evtype dom_env dom_event
  | AnimationFrame real
  | Cleanup
  | CallResize dom_env

definition call_handler ::
  "raycast \<Rightarrow> handler \<Rightarrow> dom_env \<Rightarrow> dom_event \<Rightarrow> viewer \<Rightarrow> viewer" where
  "call_handler rc h r e s =
     (case h of
        OnDown \<Rightarrow> onDown r e s
      | OnMove \<Rightarrow> onMove rc r e s
      | OnUp \<Rightarrow> onUp rc r e s
      | OnResize \<Rightarrow> onResize r s)"

definition dispatch ::
  "raycast \<Rightarrow> target \<Rightarrow> evtype \<Rightarrow> dom_env \<Rightarrow> dom_event \<Rightarrow> viewer \<Rightarrow> viewer" where
  "dispatch rc tg ty r e s =
     foldl (\<lambda>s' h. call_handler rc h r e s') s
       (map (\<lambda>l. snd (snd l)) (filter (\<lambda>l. fst l = tg \<and> fst (snd l) = ty) (listeners s)))"

definition run_frame :: "real \<Rightarrow> viewer \<Rightarrow> viewer" where
  \<comment> \<open>every callback in the queue is \<open>animate\<close>\<close>
  "run_frame currentTime s =
     foldl (\<lambda>s' k. animate currentTime s') (s\<lparr> rafQueue := [] \<rparr>) (rafQueue s)"

fun step :: "raycast \<Rightarrow> action \<Rightarrow> viewer \<Rightarrow> viewer" where
  "step rc (Dispatch tg ty r e) s = dispatch rc tg ty r e s"
| "step rc (AnimationFrame currentTime) s = run_frame currentTime s"
| "step rc Cleanup s = cleanup s"
| "step rc (CallResize r) s = onResize r s"

definition run :: "raycast \<Rightarrow> action list \<Rightarrow> viewer \<Rightarrow> viewer" where
  "run rc acts s = foldl (\<lambda>s' a. step rc a s') s acts"

text \<open>
  A gesture up to its release: the press \<open>e0\<close> followed by the moves, each read with
  the layout of its moment.
\<close>

definition gesture ::
  "raycast \<Rightarrow> dom_env \<times> dom_event \<Rightarrow> (dom_env \<times> dom_event) list \<Rightarrow> viewer \<Rightarrow> viewer" where
  "gesture rc e0 moves s =
     foldl (\<lambda>s' e. onMove rc (fst e) (snd e) s') (onDown (fst e0) (snd e0) s) moves"

text \<open>
  The distance of a pointer path as the specification words it: the sum, over the
  moves, of the absolute horizontal and vertical differences to the previous point.
\<close>

fun path_dist :: "jsnum \<times> jsnum \<Rightarrow> (jsnum \<times> jsnum) list \<Rightarrow> jsnum" where
  "path_dist p [] = Some 0"
| "path_dist p (q # qs) =
     js_add (js_add (js_abs (js_sub (fst q) (fst p))) (js_abs (js_sub (snd q) (snd p))))
       (path_dist q qs)"

text \<open>
  The coordinates of a release as the specification means them, relative to the mount
  element: those of the mouse event, or those of the touch that was lifted, which a
  \<open>touchend\<close> event carries in \<open>changedTouches\<close>.
\<close>

definition release_point :: "dom_env \<Rightarrow> dom_event \<Rightarrow> jsnum \<times> jsnum" where
  "release_point r e =
     (case e of
        MouseEvent x y \<Rightarrow> (Some (x - rectLeft r), Some (y - rectTop r))
      | TouchEvent ts cs \<Rightarrow>
          (case cs of
             [] \<Rightarrow> (None, None)
           | p # _ \<Rightarrow> (Some (fst p - rectLeft r), Some (snd p - rectTop r))))"

text \<open>
  The listeners of a mounted viewer, and what the browser guarantees about the events
  it dispatches: a mouse event has its coordinates, and the touch list of a
  \<open>touchstart\<close> or \<open>touchmove\<close> event holds at least the touch that started or
  moved.  Only the touch list of a \<open>touchend\<close> or \<open>touchcancel\<close> event can be
  empty.
\<close>

definition mounted_listeners :: "(target \<times> evtype \<times> handler) list" where
  "mounted_listeners = pointer_listeners @ [(Window, Resize, OnResize)]"

definition has_point :: "dom_event \<Rightarrow> bool" where
  "has_point e = (case e of MouseEvent x y \<Rightarrow> True | TouchEvent ts cs \<Rightarrow> ts \<noteq> [])"

fun well_formed :: "action \<Rightarrow> bool" where
  "well_formed (Dispatch tg ty r e) =
     (if ty = TouchEnd \<or> ty = TouchCancel then True else has_point e)"
| "well_formed (AnimationFrame currentTime) = True"
| "well_formed Cleanup = True"
| "well_formed (CallResize r) = True"

text \<open>
  Two invariants of a viewer.  The first is about its life cycle: the listeners are
  those of a mounted viewer or none, and at most one animation-frame request is
  pending, the one whose handle is in \<open>rafId\<close>.  The second is about its orbit state:
  the rotation about the horizontal axis is a number between \<open>-0.7\<close> and \<open>0.7\<close>, and
  the last pointer position is a pair of numbers.
\<close>

definition lifecycle_inv :: "viewer \<Rightarrow> bool" where
  "lifecycle_inv s =
     ((listeners s = mounted_listeners \<or> listeners s = [])
      \<and> (rafQueue s = [] \<or> map Some (rafQueue s) = [rafId s]))"

definition orbit_inv :: "viewer \<Rightarrow> bool" where
  "orbit_inv s =
     ((case rotationX s of None \<Rightarrow> False | Some x \<Rightarrow> - 0.7 \<le> x \<and> x \<le> 0.7)
      \<and> lastX s \<noteq> None \<and> lastY s \<noteq> None)"

section \<open>Example inputs\<close>

text \<open>
  The first sensor of flight EK205 (line 44), a layout of the mount element, a ray cast
  that meets the core of one sensor at one point of the surface and nothing anywhere
  else, and the mount of a viewer with that sensor in a wide desktop window.
\<close>

definition eng1 :: sensor where
  "eng1 = \<lparr> sid = Some ''eng1'', name = ''Engine 1'', pos = Some (- 1.7, - 0.6, 0.5), risk = 18 \<rparr>"

definition layout :: dom_env where
  "layout = \<lparr> rectLeft = 20, rectTop = 100, clientWidth = 900, clientHeight = 600 \<rparr>"

definition ray_at :: "real \<Rightarrow> real \<Rightarrow> sensor \<Rightarrow> raycast" where
  "ray_at x y h = (\<lambda>s cx cy. if cx = Some x \<and> cy = Some y then [h] else [])"

definition desktop_mount :: "error + viewer" where
  "desktop_mount = mountViewer ''Mozilla/5.0 (X11; Linux x86_64)'' 1280 layout [eng1]"

section \<open>Properties of the risk classification\<close>

lemma label_band:
  "band_of_label (RISK_LABEL r) =
     Some (if r < 30 then Nominal else if r < 60 then Watch else Critical)"
  by (simp add: RISK_LABEL_def band_of_label_def)

lemma color_band:
  "band_of_color (RISK_COLOR r) =
     Some (if r < 30 then Nominal else if r < 60 then Watch else Critical)"
  by (simp add: RISK_COLOR_def band_of_color_def)

lemma hex_band:
  "band_of_hex (RISK_COLOR_HEX r) =
     Some (if r < 30 then Nominal else if r < 60 then Watch else Critical)"
  by (simp add: RISK_COLOR_HEX_def band_of_hex_def)

text \<open>
  Claim C1.  For every integer risk score \<open>r\<close> the label is \<open>NOMINAL\<close> exactly when
  \<open>r < 30\<close>, \<open>WATCH\<close> exactly when \<open>30 \<le> r < 60\<close> and \<open>CRITICAL\<close> exactly when
  \<open>60 \<le> r\<close>; the CSS colour, the hexadecimal tint and the label always denote the same
  band; every score from 0 to 99 lies in exactly one band; and a larger score never has
  a less severe band.
\<close>

theorem risk_classification:
  "(RISK_LABEL r = ''NOMINAL'' \<longleftrightarrow> r < 30)
   \<and> (RISK_LABEL r = ''WATCH'' \<longleftrightarrow> 30 \<le> r \<and> r < 60)
   \<and> (RISK_LABEL r = ''CRITICAL'' \<longleftrightarrow> 60 \<le> r)
   \<and> band_of_color (RISK_COLOR r) = band_of_label (RISK_LABEL r)
   \<and> band_of_hex (RISK_COLOR_HEX r) = band_of_label (RISK_LABEL r)
   \<and> (in_band Nominal r \<longleftrightarrow> r < 30)
   \<and> (in_band Watch r \<longleftrightarrow> 30 \<le> r \<and> r < 60)
   \<and> (in_band Critical r \<longleftrightarrow> 60 \<le> r)
   \<and> (0 \<le> r \<and> r \<le> 99 \<longrightarrow> (\<exists>!b. in_band b r))
   \<and> (r \<le> r' \<and> in_band b r \<and> in_band b' r' \<longrightarrow> severity b \<le> severity b')"
proof -
  have l1: "RISK_LABEL r = ''NOMINAL'' \<longleftrightarrow> r < 30"
    by (simp add: RISK_LABEL_def)
  have l2: "RISK_LABEL r = ''WATCH'' \<longleftrightarrow> 30 \<le> r \<and> r < 60"
    by (simp add: RISK_LABEL_def)
  have l3: "RISK_LABEL r = ''CRITICAL'' \<longleftrightarrow> 60 \<le> r"
    by (simp add: RISK_LABEL_def)
  have c: "band_of_color (RISK_COLOR r) = band_of_label (RISK_LABEL r)"
    by (simp only: color_band label_band)
  have h: "band_of_hex (RISK_COLOR_HEX r) = band_of_label (RISK_LABEL r)"
    by (simp only: hex_band label_band)
  have b1: "in_band Nominal r \<longleftrightarrow> r < 30"
    by (simp add: in_band_def label_band)
  have b2: "in_band Watch r \<longleftrightarrow> 30 \<le> r \<and> r < 60"
    by (simp add: in_band_def label_band)
  have b3: "in_band Critical r \<longleftrightarrow> 60 \<le> r"
    by (simp add: in_band_def label_band)
  have ex: "\<exists>!b. in_band b r"
    by (auto simp: in_band_def label_band)
  have mono: "severity b \<le> severity b'" if "r \<le> r'" "in_band b r" "in_band b' r'"
    using that by (auto simp: in_band_def label_band split: if_splits)
  from l1 l2 l3 c h b1 b2 b3 ex mono show ?thesis
    by blast
qed

theorem risk_classification_witness:
  "RISK_LABEL 45 = ''WATCH'' \<and> RISK_COLOR 45 = ''#f5a623'' \<and> RISK_COLOR_HEX 45 = 16098851
   \<and> in_band Watch 45 \<and> in_band Critical 72 \<and> severity Watch \<le> severity Critical
   \<and> (\<exists>!b. in_band b 45)"
proof -
  have a: "in_band Watch 45" and b: "in_band Critical 72"
    by (simp_all add: in_band_def label_band)
  from risk_classification [of 45 72 Watch Critical] a b show ?thesis
    by (simp add: RISK_COLOR_def RISK_COLOR_HEX_def)
qed

section \<open>Properties of the animation loop\<close>

lemma phase_le_one: "phase mobile tm i \<le> 1"
  by (simp add: phase_def)

text \<open>
  Claim C8.  In a frame the scale, the emissive intensity and the glow opacity of a
  marker are the values of its tier.  Whatever the device, the time and the index of the
  marker, the value of the hovered tier is above every value that the pulsing expression
  takes (at most 1.16, 0.85 and 0.15), and the value of the selected tier is above the
  value of the hovered tier; a marker that is both selected and hovered is in the
  selected tier.
\<close>

theorem emphasis_tier_dominance:
  "m_scale (pulse_marker s k m) =
     scale_tier (id_of (m_sensor m) = selectedId s) (id_of (m_sensor m) = hoveredId s)
       (phase (isMobile s) (t s) k)
   \<and> emissiveIntensity (pulse_marker s k m) =
     emissive_tier (id_of (m_sensor m) = selectedId s) (id_of (m_sensor m) = hoveredId s)
       (phase (isMobile s) (t s) k)
   \<and> glowOpacity (pulse_marker s k m) =
     opacity_tier (id_of (m_sensor m) = selectedId s) (id_of (m_sensor m) = hoveredId s)
       (phase (isMobile s) (t s) k)
   \<and> scale_tier False False (phase mobile tm i) \<le> 1.16
   \<and> scale_tier False False (phase mobile tm i) < scale_tier False True (phase mobile' tm' i')
   \<and> scale_tier False True (phase mobile' tm' i') < scale_tier True hov (phase mobile'' tm'' i'')
   \<and> emissive_tier False False (phase mobile tm i) \<le> 0.85
   \<and> emissive_tier False False (phase mobile tm i) < emissive_tier False True (phase mobile' tm' i')
   \<and> emissive_tier False True (phase mobile' tm' i') < emissive_tier True hov (phase mobile'' tm'' i'')
   \<and> opacity_tier False False (phase mobile tm i) \<le> 0.15
   \<and> opacity_tier False False (phase mobile tm i) < opacity_tier False True (phase mobile' tm' i')
   \<and> opacity_tier False True (phase mobile' tm' i') < opacity_tier True hov (phase mobile'' tm'' i'')"
proof -
  have w: "m_scale (pulse_marker s k m) =
       scale_tier (id_of (m_sensor m) = selectedId s) (id_of (m_sensor m) = hoveredId s)
         (phase (isMobile s) (t s) k)
     \<and> emissiveIntensity (pulse_marker s k m) =
       emissive_tier (id_of (m_sensor m) = selectedId s) (id_of (m_sensor m) = hoveredId s)
         (phase (isMobile s) (t s) k)
     \<and> glowOpacity (pulse_marker s k m) =
       opacity_tier (id_of (m_sensor m) = selectedId s) (id_of (m_sensor m) = hoveredId s)
         (phase (isMobile s) (t s) k)"
    by (simp add: pulse_marker_def Let_def)
  have p: "phase mobile tm i \<le> 1"
    by (rule phase_le_one)
  have s1: "scale_tier False False (phase mobile tm i) \<le> 1.16"
    using p by (simp add: scale_tier_def)
  have s2: "scale_tier False True (phase mobile' tm' i') = 1.3"
    by (simp add: scale_tier_def)
  have s3: "scale_tier True hov (phase mobile'' tm'' i'') = 1.6"
    by (simp add: scale_tier_def)
  have e1: "emissive_tier False False (phase mobile tm i) \<le> 0.85"
    using p by (simp add: emissive_tier_def)
  have e2: "emissive_tier False True (phase mobile' tm' i') = 1.0"
    by (simp add: emissive_tier_def)
  have e3: "emissive_tier True hov (phase mobile'' tm'' i'') = 1.3"
    by (simp add: emissive_tier_def)
  have o1: "opacity_tier False False (phase mobile tm i) \<le> 0.15"
    using p by (simp add: opacity_tier_def)
  have o2: "opacity_tier False True (phase mobile' tm' i') = 0.26"
    by (simp add: opacity_tier_def)
  have o3: "opacity_tier True hov (phase mobile'' tm'' i'') = 0.38"
    by (simp add: opacity_tier_def)
  have "scale_tier False False (phase mobile tm i) \<le> 1.16
      \<and> scale_tier False False (phase mobile tm i) < scale_tier False True (phase mobile' tm' i')
      \<and> scale_tier False True (phase mobile' tm' i') < scale_tier True hov (phase mobile'' tm'' i'')
      \<and> emissive_tier False False (phase mobile tm i) \<le> 0.85
      \<and> emissive_tier False False (phase mobile tm i) < emissive_tier False True (phase mobile' tm' i')
      \<and> emissive_tier False True (phase mobile' tm' i') < emissive_tier True hov (phase mobile'' tm'' i'')
      \<and> opacity_tier False False (phase mobile tm i) \<le> 0.15
      \<and> opacity_tier False False (phase mobile tm i) < opacity_tier False True (phase mobile' tm' i')
      \<and> opacity_tier False True (phase mobile' tm' i') < opacity_tier True hov (phase mobile'' tm'' i'')"
    unfolding s2 s3 e2 e3 o2 o3 using s1 e1 o1 by simp
  with w show ?thesis
    by (intro conjI) (elim conjE, assumption)+
qed

text \<open>
  Claim C7, as amended.  Every executed step of the loop advances the time accumulator
  by a constant that depends on the device only: 0.024 on a constrained device and
  0.016 otherwise, so the increment of a step is larger, not smaller, on a constrained
  device.  What is smaller there is the advance of the pulsing phase in a step
  (increment times animation speed) and the advance of the accumulator in a second at
  the target frame rate.  A step that the throttle skips leaves the accumulator as it is.
\<close>

theorem time_increment:
  "t (frame_body currentTime s) = t s + timeIncrement_of (isMobile s)
   \<and> t (animate currentTime s) =
       (if isMobile s \<and> currentTime - lastFrameTime s < frameInterval_of (isMobile s)
        then t s else t s + timeIncrement_of (isMobile s))
   \<and> timeIncrement_of True = 0.024 \<and> timeIncrement_of False = 0.016
   \<and> timeIncrement_of False < timeIncrement_of True
   \<and> timeIncrement_of True * animSpeed_of True < timeIncrement_of False * animSpeed_of False
   \<and> timeIncrement_of True * targetFPS_of True < timeIncrement_of False * targetFPS_of False"
proof -
  have a: "t (frame_body currentTime s) = t s + timeIncrement_of (isMobile s)" for currentTime s
    by (simp add: frame_body_def Let_def spin_def)
  have r: "t (requestAnimationFrame s) = t s" "isMobile (requestAnimationFrame s) = isMobile s"
    "lastFrameTime (requestAnimationFrame s) = lastFrameTime s"
    by (simp_all add: requestAnimationFrame_def)
  have b: "t (animate currentTime s) =
       (if isMobile s \<and> currentTime - lastFrameTime s < frameInterval_of (isMobile s)
        then t s else t s + timeIncrement_of (isMobile s))"
    by (cases "isMobile s") (simp_all add: animate_def Let_def a r)
  have c: "timeIncrement_of True = 0.024 \<and> timeIncrement_of False = 0.016
     \<and> timeIncrement_of False < timeIncrement_of True
     \<and> timeIncrement_of True * animSpeed_of True < timeIncrement_of False * animSpeed_of False
     \<and> timeIncrement_of True * targetFPS_of True < timeIncrement_of False * targetFPS_of False"
    by (simp add: timeIncrement_of_def animSpeed_of_def targetFPS_of_def)
  from a b c show ?thesis by blast
qed

text \<open>
  The increment of a step is not smaller on a constrained device.
\<close>

theorem time_increment_counterexample:
  "timeIncrement_of True = 0.024 \<and> timeIncrement_of False = 0.016
   \<and> \<not> timeIncrement_of True < timeIncrement_of False"
  by (simp add: timeIncrement_of_def)

section \<open>Properties of the device profile\<close>

lemma matches_here_prefix:
  "matches_here w s \<longleftrightarrow> prefix (map canonicalize w) (map canonicalize s)"
  by (induction w s rule: matches_here.induct) simp_all

lemma regex_test_sublist:
  "regex_test ws s \<longleftrightarrow> (\<exists>w \<in> set ws. sublist (map canonicalize w) (map canonicalize s))"
proof (induction s)
  case Nil
  then show ?case by (simp add: matches_here_prefix)
next
  case (Cons c cs)
  then show ?case
    by (simp add: matches_here_prefix sublist_Cons_right) blast
qed

lemma animate_isMobile: "isMobile (animate currentTime s) = isMobile s"
  by (simp add: animate_def Let_def requestAnimationFrame_def frame_body_def spin_def)

lemma mountViewer_isMobile:
  "mountViewer userAgent innerWidth r sensors = Inr s \<Longrightarrow>
     isMobile s = detect_mobile userAgent innerWidth"
  by (auto simp: mountViewer_def Let_def animate_isMobile split: sum.splits)

text \<open>
  Claim C6.  The device is constrained exactly when the width of the window is below
  768 or one of the words \<open>iPhone\<close>, \<open>iPad\<close>, \<open>iPod\<close>, \<open>Android\<close> occurs in
  the user agent, upper and lower case letters identified.  On a constrained device the
  pixel ratio is capped at 1.2 instead of 2, the geometry has 12 segments instead of 24,
  the pitot tube, the intake lip rings, the connector strokes and the APU exhaust are
  left out, and the frame interval is that of 30 frames per second instead of 60.  The
  profile is a function of the width, the user agent and the pixel ratio, and the viewer
  that is mounted carries the same classification.
\<close>
theorem device_profile_resolution:
  fixes userAgent :: string and innerWidth :: int and devicePixelRatio :: real
  assumes "p = resolve_profile userAgent innerWidth devicePixelRatio"
  shows "(isConstrained p \<longleftrightarrow>
            innerWidth < 768
            \<or> (\<exists>w \<in> {''iPhone'', ''iPad'', ''iPod'', ''Android''}.
                  sublist (map canonicalize w) (map canonicalize userAgent)))
    \<and> (isConstrained p \<longrightarrow>
          pixelRatio p = min devicePixelRatio 1.2 \<and> geometryDetail p = 12
          \<and> \<not> pitotTube p \<and> \<not> intakeLip p \<and> \<not> connectorStub p \<and> \<not> apuExhaust p
          \<and> targetFPS p = 30 \<and> frameInterval p = 1000 / 30)
    \<and> (\<not> isConstrained p \<longrightarrow>
          pixelRatio p = min devicePixelRatio 2 \<and> geometryDetail p = 24
          \<and> pitotTube p \<and> intakeLip p \<and> connectorStub p \<and> apuExhaust p
          \<and> targetFPS p = 60 \<and> frameInterval p = 1000 / 60)
    \<and> min devicePixelRatio 1.2 \<le> min devicePixelRatio 2
    \<and> (\<forall>r sensors s. mountViewer userAgent innerWidth r sensors = Inr s \<longrightarrow>
          isMobile s = isConstrained p)"
proof -
  have c: "isConstrained p = detect_mobile userAgent innerWidth"
    using assms by (simp add: resolve_profile_def Let_def)
  have d: "detect_mobile userAgent innerWidth \<longleftrightarrow>
      innerWidth < 768
      \<or> (\<exists>w \<in> {''iPhone'', ''iPad'', ''iPod'', ''Android''}.
            sublist (map canonicalize w) (map canonicalize userAgent))"
    unfolding detect_mobile_def regex_test_sublist handheld_pattern_def
    by auto
  have m: "isConstrained p \<Longrightarrow>
      pixelRatio p = min devicePixelRatio 1.2 \<and> geometryDetail p = 12
      \<and> \<not> pitotTube p \<and> \<not> intakeLip p \<and> \<not> connectorStub p \<and> \<not> apuExhaust p
      \<and> targetFPS p = 30 \<and> frameInterval p = 1000 / 30"
    using assms
    by (simp add: resolve_profile_def Let_def targetFPS_of_def frameInterval_of_def)
  have n: "\<not> isConstrained p \<Longrightarrow>
      pixelRatio p = min devicePixelRatio 2 \<and> geometryDetail p = 24
      \<and> pitotTube p \<and> intakeLip p \<and> connectorStub p \<and> apuExhaust p
      \<and> targetFPS p = 60 \<and> frameInterval p = 1000 / 60"
    using assms
    by (simp add: resolve_profile_def Let_def targetFPS_of_def frameInterval_of_def)
  have q: "min devicePixelRatio 1.2 \<le> min devicePixelRatio 2"
    by simp
  have v: "isMobile s = isConstrained p"
    if "mountViewer userAgent innerWidth r sensors = Inr s" for r sensors s
    using mountViewer_isMobile [OF that] c by simp
  from c d m n q v show ?thesis
    by blast
qed

theorem device_profile_resolution_witness:
  "isConstrained (resolve_profile ''Mozilla/5.0 (X11; Linux x86_64)'' 400 2)
   \<and> pixelRatio (resolve_profile ''Mozilla/5.0 (X11; Linux x86_64)'' 400 2) = 1.2
   \<and> geometryDetail (resolve_profile ''Mozilla/5.0 (X11; Linux x86_64)'' 400 2) = 12
   \<and> \<not> pitotTube (resolve_profile ''Mozilla/5.0 (X11; Linux x86_64)'' 400 2)
   \<and> \<not> connectorStub (resolve_profile ''Mozilla/5.0 (X11; Linux x86_64)'' 400 2)
   \<and> frameInterval (resolve_profile ''Mozilla/5.0 (X11; Linux x86_64)'' 400 2) = 1000 / 30
   \<and> isConstrained (resolve_profile ''Mozilla/5.0 (iPad; CPU OS 17_0)'' 1024 2)
   \<and> \<not> isConstrained (resolve_profile ''Mozilla/5.0 (X11; Linux x86_64)'' 1280 3)
   \<and> pixelRatio (resolve_profile ''Mozilla/5.0 (X11; Linux x86_64)'' 1280 3) = 2
   \<and> geometryDetail (resolve_profile ''Mozilla/5.0 (X11; Linux x86_64)'' 1280 3) = 24
   \<and> frameInterval (resolve_profile ''Mozilla/5.0 (X11; Linux x86_64)'' 1280 3) = 1000 / 60
   \<and> (\<exists>s. mountViewer ''Mozilla/5.0 (X11; Linux x86_64)'' 400
              \<lparr>rectLeft = 0, rectTop = 0, clientWidth = 400, clientHeight = 380\<rparr> [] = Inr s
            \<and> isMobile s)"
proof -
  note narrow = device_profile_resolution
      [OF refl, of "''Mozilla/5.0 (X11; Linux x86_64)''" 400 2]
  note tablet = device_profile_resolution
      [OF refl, of "''Mozilla/5.0 (iPad; CPU OS 17_0)''" 1024 2]
  note desktop = device_profile_resolution
      [OF refl, of "''Mozilla/5.0 (X11; Linux x86_64)''" 1280 3]
  have a: "isConstrained (resolve_profile ''Mozilla/5.0 (X11; Linux x86_64)'' 400 2)"
    using narrow by simp
  have b: "sublist (map canonicalize ''iPad'') (map canonicalize ''Mozilla/5.0 (iPad; CPU OS 17_0)'')"
    unfolding sublist_def
    by (rule exI [of _ "map canonicalize ''Mozilla/5.0 (''"],
        rule exI [of _ "map canonicalize ''; CPU OS 17_0)''"]) simp
  have c: "isConstrained (resolve_profile ''Mozilla/5.0 (iPad; CPU OS 17_0)'' 1024 2)"
    using tablet b by simp
  have d: "\<not> isConstrained (resolve_profile ''Mozilla/5.0 (X11; Linux x86_64)'' 1280 3)"
    by (simp add: resolve_profile_def detect_mobile_def handheld_pattern_def canonicalize_def)
  have e: "\<exists>s. mountViewer ''Mozilla/5.0 (X11; Linux x86_64)'' 400
              \<lparr>rectLeft = 0, rectTop = 0, clientWidth = 400, clientHeight = 380\<rparr> [] = Inr s"
    by (simp add: mountViewer_def Let_def)
  then obtain s where s: "mountViewer ''Mozilla/5.0 (X11; Linux x86_64)'' 400
              \<lparr>rectLeft = 0, rectTop = 0, clientWidth = 400, clientHeight = 380\<rparr> [] = Inr s"
    by blast
  have f: "isMobile s"
    using narrow s a by blast
  have g: "\<exists>s. mountViewer ''Mozilla/5.0 (X11; Linux x86_64)'' 400
              \<lparr>rectLeft = 0, rectTop = 0, clientWidth = 400, clientHeight = 380\<rparr> [] = Inr s
            \<and> isMobile s"
    using s f by blast
  have n: "pixelRatio (resolve_profile ''Mozilla/5.0 (X11; Linux x86_64)'' 400 2) = 1.2
     \<and> geometryDetail (resolve_profile ''Mozilla/5.0 (X11; Linux x86_64)'' 400 2) = 12
     \<and> \<not> pitotTube (resolve_profile ''Mozilla/5.0 (X11; Linux x86_64)'' 400 2)
     \<and> \<not> connectorStub (resolve_profile ''Mozilla/5.0 (X11; Linux x86_64)'' 400 2)
     \<and> frameInterval (resolve_profile ''Mozilla/5.0 (X11; Linux x86_64)'' 400 2) = 1000 / 30"
    using narrow a by simp
  have w: "pixelRatio (resolve_profile ''Mozilla/5.0 (X11; Linux x86_64)'' 1280 3) = 2
     \<and> geometryDetail (resolve_profile ''Mozilla/5.0 (X11; Linux x86_64)'' 1280 3) = 24
     \<and> frameInterval (resolve_profile ''Mozilla/5.0 (X11; Linux x86_64)'' 1280 3) = 1000 / 60"
    using desktop d by simp
  from a n c d w g show ?thesis
    by blast
qed

section \<open>Properties of marker construction\<close>

lemma build_markers_from:
  "build_markers mobile xs layer =
     (if \<forall>x \<in> set xs. pos x \<noteq> None
      then Inr (fst layer
                  @ concat (map (\<lambda>x. [GlowMesh (the (pos x)) (RISK_COLOR_HEX (risk x)),
                                        CoreMesh (the (pos x)) (RISK_COLOR_HEX (risk x))]
                                       @ (if \<not> mobile
                                          then [ConnectorLine (the (pos x)) (RISK_COLOR_HEX (risk x))]
                                          else [])) xs),
                snd layer
                  @ map (\<lambda>x. \<lparr> m_sensor = x, m_scale = 1, emissiveIntensity = 0.75,
                                 glowOpacity = 0.11 \<rparr>) xs)
      else Inl TypeError)"
proof (induction xs arbitrary: layer)
  case Nil
  show ?case by simp
next
  case (Cons x xs)
  show ?case
  proof (cases "pos x")
    case None
    then show ?thesis by (simp add: build_marker_def del: not_None_eq)
  next
    case (Some p)
    then show ?thesis
      by (simp add: build_marker_def Let_def Cons.IH del: not_None_eq)
  qed
qed

lemma pulse_all_m_sensor:
  "map (m_sensor \<circ> (\<lambda>(i, m). pulse_marker s i m)) (enumerate n ms) = map m_sensor ms"
  by (induction ms arbitrary: n) (simp_all add: pulse_marker_def Let_def)

lemma frame_body_m_sensor:
  "map m_sensor (sensorMeshes (frame_body currentTime s)) = map m_sensor (sensorMeshes s)"
  by (simp add: frame_body_def Let_def pulse_all_m_sensor spin_def)

lemma animate_m_sensor:
  "map m_sensor (sensorMeshes (animate currentTime s)) = map m_sensor (sensorMeshes s)"
  by (simp add: animate_def Let_def frame_body_m_sensor requestAnimationFrame_def)

text \<open>
  Claim C3, as amended.  Marker construction has no check of the records.  When every
  record of the list has a position, it builds for every record, in the order of the
  list, a glow shell and a core (and a connector stroke on an unconstrained device),
  and the core meshes refer to the records in that order; a record without an id gets
  its marker like any other.  When some record has no position, construction ends with
  a \<open>TypeError\<close>, and so does the mount effect: there is no viewer.
\<close>
theorem marker_construction:
  "build_markers mobile xs ([], []) =
     (if \<forall>x \<in> set xs. pos x \<noteq> None
      then Inr (concat (map (\<lambda>x. [GlowMesh (the (pos x)) (RISK_COLOR_HEX (risk x)),
                                    CoreMesh (the (pos x)) (RISK_COLOR_HEX (risk x))]
                                   @ (if \<not> mobile
                                      then [ConnectorLine (the (pos x)) (RISK_COLOR_HEX (risk x))]
                                      else [])) xs),
                map (\<lambda>x. \<lparr> m_sensor = x, m_scale = 1, emissiveIntensity = 0.75,
                             glowOpacity = 0.11 \<rparr>) xs)
      else Inl TypeError)
   \<and> ((\<exists>x \<in> set xs. pos x = None) \<longrightarrow>
        mountViewer userAgent innerWidth r xs = Inl TypeError)
   \<and> ((\<forall>x \<in> set xs. pos x \<noteq> None) \<longrightarrow>
        (\<exists>s. mountViewer userAgent innerWidth r xs = Inr s
             \<and> map m_sensor (sensorMeshes s) = xs))"
proof -
  let ?mobile = "detect_mobile userAgent innerWidth"
  have a: "build_markers mobile xs ([], []) =
     (if \<forall>x \<in> set xs. pos x \<noteq> None
      then Inr (concat (map (\<lambda>x. [GlowMesh (the (pos x)) (RISK_COLOR_HEX (risk x)),
                                    CoreMesh (the (pos x)) (RISK_COLOR_HEX (risk x))]
                                   @ (if \<not> mobile
                                      then [ConnectorLine (the (pos x)) (RISK_COLOR_HEX (risk x))]
                                      else [])) xs),
                map (\<lambda>x. \<lparr> m_sensor = x, m_scale = 1, emissiveIntensity = 0.75,
                             glowOpacity = 0.11 \<rparr>) xs)
      else Inl TypeError)" for mobile
    by (simp add: build_markers_from [of mobile xs "([], [])"])
  have b: "mountViewer userAgent innerWidth r xs = Inl TypeError"
    if "\<exists>x \<in> set xs. pos x = None"
    using that by (simp add: mountViewer_def Let_def a [of ?mobile] del: not_None_eq)
  have c: "\<exists>s. mountViewer userAgent innerWidth r xs = Inr s
             \<and> map m_sensor (sensorMeshes s) = xs"
    if "\<forall>x \<in> set xs. pos x \<noteq> None"
    using that
    by (simp add: mountViewer_def Let_def a [of ?mobile] animate_m_sensor o_def
        del: not_None_eq)
  from a b c show ?thesis by blast
qed

theorem marker_construction_witness:
  "build_markers True
     [\<lparr>sid = Some ''eng1'', name = ''Engine 1'', pos = Some (- 1.7, - 0.6, 0.5), risk = 18\<rparr>,
      \<lparr>sid = None, name = ''Frame 47'', pos = Some (0, 0, 0.4), risk = 61\<rparr>] ([], [])
   = Inr ([GlowMesh (- 1.7, - 0.6, 0.5) 58816, CoreMesh (- 1.7, - 0.6, 0.5) 58816,
           GlowMesh (0, 0, 0.4) 16726876, CoreMesh (0, 0, 0.4) 16726876],
          [\<lparr>m_sensor = \<lparr>sid = Some ''eng1'', name = ''Engine 1'',
                        pos = Some (- 1.7, - 0.6, 0.5), risk = 18\<rparr>,
             m_scale = 1, emissiveIntensity = 0.75, glowOpacity = 0.11\<rparr>,
           \<lparr>m_sensor = \<lparr>sid = None, name = ''Frame 47'', pos = Some (0, 0, 0.4), risk = 61\<rparr>,
             m_scale = 1, emissiveIntensity = 0.75, glowOpacity = 0.11\<rparr>])
   \<and> mountViewer ''Mozilla/5.0 (X11; Linux x86_64)'' 1280
        \<lparr>rectLeft = 0, rectTop = 0, clientWidth = 900, clientHeight = 600\<rparr>
        [\<lparr>sid = Some ''eng1'', name = ''Engine 1'', pos = Some (- 1.7, - 0.6, 0.5), risk = 18\<rparr>,
         \<lparr>sid = Some ''wingL'', name = ''Wing Flex'', pos = None, risk = 28\<rparr>]
      = Inl TypeError
   \<and> (\<exists>s. mountViewer ''Mozilla/5.0 (X11; Linux x86_64)'' 1280
        \<lparr>rectLeft = 0, rectTop = 0, clientWidth = 900, clientHeight = 600\<rparr>
        [\<lparr>sid = Some ''eng1'', name = ''Engine 1'', pos = Some (- 1.7, - 0.6, 0.5), risk = 18\<rparr>]
          = Inr s
        \<and> map m_sensor (sensorMeshes s) =
          [\<lparr>sid = Some ''eng1'', name = ''Engine 1'', pos = Some (- 1.7, - 0.6, 0.5), risk = 18\<rparr>])"
proof -
  note two = marker_construction
    [of True "[\<lparr>sid = Some ''eng1'', name = ''Engine 1'', pos = Some (- 1.7, - 0.6, 0.5), risk = 18\<rparr>,
               \<lparr>sid = None, name = ''Frame 47'', pos = Some (0, 0, 0.4), risk = 61\<rparr>]"]
  note bad = marker_construction
    [of _ "[\<lparr>sid = Some ''eng1'', name = ''Engine 1'', pos = Some (- 1.7, - 0.6, 0.5), risk = 18\<rparr>,
            \<lparr>sid = Some ''wingL'', name = ''Wing Flex'', pos = None, risk = 28\<rparr>]"
        "''Mozilla/5.0 (X11; Linux x86_64)''" 1280
        "\<lparr>rectLeft = 0, rectTop = 0, clientWidth = 900, clientHeight = 600\<rparr>"]
  note one = marker_construction
    [of _ "[\<lparr>sid = Some ''eng1'', name = ''Engine 1'', pos = Some (- 1.7, - 0.6, 0.5), risk = 18\<rparr>]"
        "''Mozilla/5.0 (X11; Linux x86_64)''" 1280
        "\<lparr>rectLeft = 0, rectTop = 0, clientWidth = 900, clientHeight = 600\<rparr>"]
  have a: "build_markers True
     [\<lparr>sid = Some ''eng1'', name = ''Engine 1'', pos = Some (- 1.7, - 0.6, 0.5), risk = 18\<rparr>,
      \<lparr>sid = None, name = ''Frame 47'', pos = Some (0, 0, 0.4), risk = 61\<rparr>] ([], [])
   = Inr ([GlowMesh (- 1.7, - 0.6, 0.5) 58816, CoreMesh (- 1.7, - 0.6, 0.5) 58816,
           GlowMesh (0, 0, 0.4) 16726876, CoreMesh (0, 0, 0.4) 16726876],
          [\<lparr>m_sensor = \<lparr>sid = Some ''eng1'', name = ''Engine 1'',
                        pos = Some (- 1.7, - 0.6, 0.5), risk = 18\<rparr>,
             m_scale = 1, emissiveIntensity = 0.75, glowOpacity = 0.11\<rparr>,
           \<lparr>m_sensor = \<lparr>sid = None, name = ''Frame 47'', pos = Some (0, 0, 0.4), risk = 61\<rparr>,
             m_scale = 1, emissiveIntensity = 0.75, glowOpacity = 0.11\<rparr>])"
    using two by (simp add: RISK_COLOR_HEX_def del: not_None_eq)
  have b: "mountViewer ''Mozilla/5.0 (X11; Linux x86_64)'' 1280
        \<lparr>rectLeft = 0, rectTop = 0, clientWidth = 900, clientHeight = 600\<rparr>
        [\<lparr>sid = Some ''eng1'', name = ''Engine 1'', pos = Some (- 1.7, - 0.6, 0.5), risk = 18\<rparr>,
         \<lparr>sid = Some ''wingL'', name = ''Wing Flex'', pos = None, risk = 28\<rparr>]
      = Inl TypeError"
    using bad by (simp del: not_None_eq)
  have c: "\<exists>s. mountViewer ''Mozilla/5.0 (X11; Linux x86_64)'' 1280
        \<lparr>rectLeft = 0, rectTop = 0, clientWidth = 900, clientHeight = 600\<rparr>
        [\<lparr>sid = Some ''eng1'', name = ''Engine 1'', pos = Some (- 1.7, - 0.6, 0.5), risk = 18\<rparr>]
          = Inr s
        \<and> map m_sensor (sensorMeshes s) =
          [\<lparr>sid = Some ''eng1'', name = ''Engine 1'', pos = Some (- 1.7, - 0.6, 0.5), risk = 18\<rparr>]"
    using one by (simp del: not_None_eq)
  from a b c show ?thesis by blast
qed

text \<open>
  A record without a position between two well-formed records ends the construction,
  and a record without an id is not skipped.
\<close>

theorem marker_construction_counterexample:
  "build_markers False
     [\<lparr>sid = Some ''eng1'', name = ''Engine 1'', pos = Some (- 1.7, - 0.6, 0.5), risk = 18\<rparr>,
      \<lparr>sid = Some ''wingL'', name = ''Wing Flex'', pos = None, risk = 28\<rparr>,
      \<lparr>sid = Some ''eng2'', name = ''Engine 2'', pos = Some (- 3.2, - 0.6, 0.3), risk = 14\<rparr>]
     ([], [])
   = Inl TypeError
   \<and> build_markers False
     [\<lparr>sid = None, name = ''Frame 47'', pos = Some (0, 0, 0.4), risk = 22\<rparr>] ([], [])
   = Inr ([GlowMesh (0, 0, 0.4) 58816, CoreMesh (0, 0, 0.4) 58816,
           ConnectorLine (0, 0, 0.4) 58816],
          [\<lparr>m_sensor = \<lparr>sid = None, name = ''Frame 47'', pos = Some (0, 0, 0.4), risk = 22\<rparr>,
             m_scale = 1, emissiveIntensity = 0.75, glowOpacity = 0.11\<rparr>])"
  by (simp add: build_marker_def RISK_COLOR_HEX_def)

section \<open>Properties of the interaction controller\<close>

lemma js_lt_Some [simp]: "js_lt (Some x) (Some y) = (x < y)"
  by (simp add: js_lt_def)

lemma js_lt_None [simp]: "js_lt None b = False" "js_lt a None = False"
  by (simp_all add: js_lt_def split: option.splits)

lemma onDown_selected: "selected (onDown r e s) = selected s" "selectedId (onDown r e s) = selectedId s"
  by (simp_all add: onDown_def Let_def)

lemma onMove_selected: "selected (onMove rc r e s) = selected s" "selectedId (onMove rc r e s) = selectedId s"
  by (simp_all add: onMove_def Let_def drag_def hover_def split: dom_event.splits)

lemma moves_selected:
  "selected (foldl (\<lambda>s' e. onMove rc (fst e) (snd e) s') s moves) = selected s
   \<and> selectedId (foldl (\<lambda>s' e. onMove rc (fst e) (snd e) s') s moves) = selectedId s"
  by (induction moves arbitrary: s) (simp_all add: onMove_selected)

lemma gesture_selected:
  "selected (gesture rc e0 moves s) = selected s"
  "selectedId (gesture rc e0 moves s) = selectedId s"
  by (simp_all add: gesture_def moves_selected onDown_selected)

lemma onMove_dragging:
  "isDragging s \<Longrightarrow> isDragging (onMove rc r e s)
     \<and> dragDist (onMove rc r e s) =
         js_add (dragDist s)
           (js_add (js_abs (js_sub (fst (getXY r e)) (lastX s)))
                   (js_abs (js_sub (snd (getXY r e)) (lastY s))))
     \<and> lastX (onMove rc r e s) = fst (getXY r e)
     \<and> lastY (onMove rc r e s) = snd (getXY r e)"
  by (simp add: onMove_def Let_def drag_def hover_def split: dom_event.splits)

lemma js_add_assoc: "js_add (js_add a b) c = js_add a (js_add b c)"
  by (simp add: js_add_def js_lift2_def split: option.splits)

lemma js_add_zero [simp]: "js_add a (Some 0) = a" "js_add (Some 0) a = a"
  by (simp_all add: js_add_def js_lift2_def split: option.splits)

lemma moves_dragDist:
  "isDragging s \<Longrightarrow>
     dragDist (foldl (\<lambda>s' e. onMove rc (fst e) (snd e) s') s moves) =
       js_add (dragDist s) (path_dist (lastX s, lastY s) (map (\<lambda>e. getXY (fst e) (snd e)) moves))"
proof (induction moves arbitrary: s)
  case Nil
  show ?case by simp
next
  case (Cons e es)
  note step = onMove_dragging [OF Cons.prems, of rc "fst e" "snd e"]
  from step have drg: "isDragging (onMove rc (fst e) (snd e) s)"
    by simp
  show ?case
    using Cons.IH [OF drg] step by (simp add: js_add_assoc)
qed

lemma gesture_dragDist:
  "dragDist (gesture rc e0 moves s) =
     path_dist (getXY (fst e0) (snd e0)) (map (\<lambda>e. getXY (fst e) (snd e)) moves)"
proof -
  have d: "isDragging (onDown (fst e0) (snd e0) s)"
    by (simp add: onDown_def Let_def)
  show ?thesis
    unfolding gesture_def moves_dragDist [OF d]
    by (simp add: onDown_def Let_def)
qed

lemma onUp_drag:
  "\<not> js_lt (dragDist s) (Some 6) \<Longrightarrow>
     selected (onUp rc r e s) = selected s \<and> selectedId (onUp rc r e s) = selectedId s"
  by (simp add: onUp_def Let_def)

lemma onUp_tap:
  "js_lt (dragDist s) (Some 6) \<Longrightarrow>
     selected (onUp rc r e s) = first_hit (rc s (fst (getXY r e)) (snd (getXY r e)))
     \<and> selectedId (onUp rc r e s) = opt_id (first_hit (rc s (fst (getXY r e)) (snd (getXY r e))))"
  by (simp add: onUp_def Let_def setSelected_def)

text \<open>
  The release handler on any gesture: a press, any moves, and the release.  The counter
  at the release is the distance of the pointer path.  When the counter is 6 or more,
  the release leaves the selection as it was before the gesture.  When the counter is
  below 6, the ray is cast from the coordinates that the handler reads from the event;
  with a hit the selection becomes the sensor of the nearest hit and the selected id its
  id, without a hit the selection is cleared.  (A counter that is not a number never
  compares below 6, so the selection stays.)  For a mouse event the coordinates that the
  handler reads are those of the release.
\<close>

lemma getXY_mouse: "getXY r (MouseEvent x y) = release_point r (MouseEvent x y)"
  by (simp add: getXY_def release_point_def js_sub_def js_lift2_def)

theorem release_tap_or_drag:
  fixes rc :: raycast
  assumes "s' = gesture rc e0 moves s" and "s'' = onUp rc r e s'"
    and "hits = rc s' (fst (getXY r e)) (snd (getXY r e))"
  shows "dragDist s' = path_dist (getXY (fst e0) (snd e0)) (map (\<lambda>m. getXY (fst m) (snd m)) moves)
    \<and> (\<forall>d. dragDist s' = Some d \<and> 6 \<le> d \<longrightarrow>
          selected s'' = selected s \<and> selectedId s'' = selectedId s)
    \<and> (\<forall>d. dragDist s' = Some d \<and> d < 6 \<longrightarrow>
          (hits = [] \<longrightarrow> selected s'' = None \<and> selectedId s'' = Undefined)
          \<and> (\<forall>h hs. hits = h # hs \<longrightarrow> selected s'' = Some h \<and> selectedId s'' = id_of h))
    \<and> (dragDist s' = None \<longrightarrow> selected s'' = selected s \<and> selectedId s'' = selectedId s)"
proof -
  have a: "dragDist s' = path_dist (getXY (fst e0) (snd e0)) (map (\<lambda>m. getXY (fst m) (snd m)) moves)"
    unfolding assms(1) by (rule gesture_dragDist)
  have b: "selected s'' = selected s \<and> selectedId s'' = selectedId s"
    if "dragDist s' = Some d" "6 \<le> d" for d
  proof -
    from that have "\<not> js_lt (dragDist s') (Some 6)" by simp
    from onUp_drag [OF this] show ?thesis
      unfolding assms(2) by (simp add: assms(1) gesture_selected)
  qed
  have c: "(hits = [] \<longrightarrow> selected s'' = None \<and> selectedId s'' = Undefined)
          \<and> (\<forall>h hs. hits = h # hs \<longrightarrow> selected s'' = Some h \<and> selectedId s'' = id_of h)"
    if "dragDist s' = Some d" "d < 6" for d
  proof -
    from that have "js_lt (dragDist s') (Some 6)" by simp
    from onUp_tap [OF this, of rc r e] show ?thesis
      unfolding assms(2) assms(3) by (auto simp: first_hit_def opt_id_def)
  qed
  have d: "selected s'' = selected s \<and> selectedId s'' = selectedId s"
    if "dragDist s' = None"
  proof -
    from that have "\<not> js_lt (dragDist s') (Some 6)" by simp
    from onUp_drag [OF this] show ?thesis
      unfolding assms(2) by (simp add: assms(1) gesture_selected)
  qed
  from a b c d show ?thesis by blast
qed

lemma desktop_mount_ok: "\<exists>s. desktop_mount = Inr s"
  by (simp add: desktop_mount_def mountViewer_def Let_def build_marker_def eng1_def
      detect_mobile_def handheld_pattern_def canonicalize_def)

theorem release_tap_or_drag_witness:
  "case desktop_mount of
     Inl err \<Rightarrow> False
   | Inr s0 \<Rightarrow>
       selected (onUp (ray_at 300 200 eng1) layout (MouseEvent 320 300)
                  (gesture (ray_at 300 200 eng1) (layout, MouseEvent 318 299)
                     [(layout, MouseEvent 320 300)] s0)) = Some eng1
       \<and> selected (onUp (ray_at 300 200 eng1) layout (MouseEvent 500 300)
                  (gesture (ray_at 300 200 eng1) (layout, MouseEvent 500 300) []
                     (setSelected (Some eng1) s0))) = None
       \<and> selected (onUp (ray_at 300 200 eng1) layout (MouseEvent 320 300)
                  (gesture (ray_at 300 200 eng1) (layout, MouseEvent 400 300)
                     [(layout, MouseEvent 360 300), (layout, MouseEvent 320 300)] s0)) = None"
proof -
  obtain s0 where s0: "desktop_mount = Inr s0"
    using desktop_mount_ok by blast
  have sel0: "selected s0 = None"
    using s0 by (auto simp: desktop_mount_def mountViewer_def Let_def animate_def
        requestAnimationFrame_def frame_body_def spin_def split: sum.splits if_splits)
  note tap = release_tap_or_drag [OF refl refl refl, of "ray_at 300 200 eng1"
      "(layout, MouseEvent 318 299)" "[(layout, MouseEvent 320 300)]" s0 layout "MouseEvent 320 300"]
  note miss = release_tap_or_drag [OF refl refl refl, of "ray_at 300 200 eng1"
      "(layout, MouseEvent 500 300)" "[]" "setSelected (Some eng1) s0" layout "MouseEvent 500 300"]
  note far = release_tap_or_drag [OF refl refl refl, of "ray_at 300 200 eng1"
      "(layout, MouseEvent 400 300)" "[(layout, MouseEvent 360 300), (layout, MouseEvent 320 300)]"
      s0 layout "MouseEvent 320 300"]
  have a: "selected (onUp (ray_at 300 200 eng1) layout (MouseEvent 320 300)
                  (gesture (ray_at 300 200 eng1) (layout, MouseEvent 318 299)
                     [(layout, MouseEvent 320 300)] s0)) = Some eng1"
    using tap
    by (simp add: getXY_def layout_def js_sub_def js_add_def js_abs_def js_lift2_def ray_at_def)
  have b: "selected (onUp (ray_at 300 200 eng1) layout (MouseEvent 500 300)
                  (gesture (ray_at 300 200 eng1) (layout, MouseEvent 500 300) []
                     (setSelected (Some eng1) s0))) = None"
    using miss
    by (simp add: getXY_def layout_def js_sub_def js_add_def js_abs_def js_lift2_def ray_at_def)
  have c: "selected (onUp (ray_at 300 200 eng1) layout (MouseEvent 320 300)
                  (gesture (ray_at 300 200 eng1) (layout, MouseEvent 400 300)
                     [(layout, MouseEvent 360 300), (layout, MouseEvent 320 300)] s0)) = None"
    using far sel0
    by (simp add: getXY_def layout_def js_sub_def js_add_def js_abs_def js_lift2_def ray_at_def)
  from a b c show ?thesis
    by (simp add: s0)
qed

text \<open>
  Claim C2, at the input on which the code departs from it.  The claim: a release
  after a gesture with a counter of 6 or more never changes the selection; a release
  after a gesture with a smaller counter casts a ray from the release coordinates and
  selects the sensor that is hit, or clears the selection when nothing is hit.  Here a
  finger touches the surface at the point where the ray meets the marker of sensor
  \<open>eng1\<close> (client coordinates 396 and 418 in the example layout, where the camera
  of the viewer projects the position of that sensor) and is lifted without a move.
  The counter is 0 and the release point is over the marker, but the handler reads the
  coordinates from \<open>touches\<close>, which is empty in the \<open>touchend\<close> event: it casts
  the ray through \<open>NaN\<close>, which the ray cast of the example answers with no hit, and
  clears the selection.  The same tap with the mouse selects the sensor.
\<close>

theorem touch_release_over_marker:
  "case desktop_mount of
     Inl err \<Rightarrow> False
   | Inr s0 \<Rightarrow>
       (let rc = ray_at 376 318 eng1;
            tap = gesture rc (layout, TouchEvent [(396, 418)] [(396, 418)]) [] s0;
            up = TouchEvent [] [(396, 418)]
        in dragDist tap = Some 0
           \<and> release_point layout up = (Some 376, Some 318)
           \<and> first_hit (rc tap (fst (release_point layout up)) (snd (release_point layout up)))
               = Some eng1
           \<and> getXY layout up = (None, None)
           \<and> selected (onUp rc layout up tap) = None
           \<and> selected (onUp rc layout (MouseEvent 396 418)
                        (gesture rc (layout, MouseEvent 396 418) [] s0)) = Some eng1)"
proof -
  obtain s0 where s0: "desktop_mount = Inr s0"
    using desktop_mount_ok by blast
  let ?rc = "ray_at 376 318 eng1"
  let ?tap = "gesture ?rc (layout, TouchEvent [(396, 418)] [(396, 418)]) [] s0"
  let ?click = "gesture ?rc (layout, MouseEvent 396 418) [] s0"
  let ?up = "TouchEvent [] [(396, 418)]"
  have d: "dragDist ?tap = Some 0" "dragDist ?click = Some 0"
    by (simp_all add: gesture_dragDist)
  have p: "release_point layout ?up = (Some 376, Some 318)"
    by (simp add: release_point_def layout_def)
  have h: "first_hit (?rc ?tap (Some 376) (Some 318)) = Some eng1"
    by (simp add: ray_at_def first_hit_def)
  have g: "getXY layout ?up = (None, None)"
    by (simp add: getXY_def js_sub_def js_lift2_def)
  have t: "selected (onUp ?rc layout ?up ?tap) = None"
    using onUp_tap [of ?tap ?rc layout ?up] d(1)
    by (simp add: g ray_at_def first_hit_def)
  have m: "selected (onUp ?rc layout (MouseEvent 396 418) ?click) = Some eng1"
    using onUp_tap [of ?click ?rc layout "MouseEvent 396 418"] d(2)
    by (simp add: getXY_def layout_def js_sub_def js_lift2_def ray_at_def first_hit_def)
  from d(1) p h g t m show ?thesis
    by (simp add: s0 Let_def)
qed








section \<open>Properties of the inertia\<close>

lemma frame_body_idle:
  "\<not> isDragging s \<Longrightarrow> velX s = Some v \<Longrightarrow>
     \<not> isDragging (frame_body currentTime s)
     \<and> velX (frame_body currentTime s) = Some (v * 0.94)
     \<and> isMobile (frame_body currentTime s) = isMobile s
     \<and> rotationY (frame_body currentTime s) =
         js_add (js_add (rotationY s) (Some (v * 0.94))) (Some (idleRotation_of (isMobile s)))"
  by (simp add: frame_body_def Let_def spin_def js_mul_def js_lift2_def)

lemma executed_steps_snoc:
  "executed_steps (stamps @ [currentTime]) s = frame_body currentTime (executed_steps stamps s)"
  by (simp add: executed_steps_def)

lemma executed_steps_idle:
  "\<not> isDragging s \<Longrightarrow> velX s = Some v \<Longrightarrow>
     \<not> isDragging (executed_steps stamps s)
     \<and> velX (executed_steps stamps s) = Some (v * 0.94 ^ length stamps)"
proof (induction stamps rule: rev_induct)
  case Nil
  then show ?case by (simp add: executed_steps_def)
next
  case (snoc c cs)
  from snoc have d: "\<not> isDragging (executed_steps cs s)"
    and v: "velX (executed_steps cs s) = Some (v * 0.94 ^ length cs)"
    by simp_all
  from frame_body_idle [OF d v, of c] show ?case
    by (simp add: executed_steps_snoc mult.assoc)
qed

lemma decay_tendsto_zero: "(\<lambda>n. v * (0.94::real) ^ n) \<longlonglongrightarrow> 0"
proof -
  have "(\<lambda>n. (0.94::real) ^ n) \<longlonglongrightarrow> 0"
    by (rule LIMSEQ_realpow_zero) simp_all
  from tendsto_mult_left [OF this, of v] show ?thesis
    by simp
qed

lemma decay_magnitude:
  "\<bar>v * (0.94::real) ^ Suc n\<bar> \<le> \<bar>v * 0.94 ^ n\<bar>"
  "v \<noteq> 0 \<Longrightarrow> \<bar>v * (0.94::real) ^ Suc n\<bar> < \<bar>v * 0.94 ^ n\<bar>"
proof -
  define a where "a = \<bar>v * (0.94::real) ^ n\<bar>"
  have e: "\<bar>v * (0.94::real) ^ Suc n\<bar> = 0.94 * a"
    by (simp add: a_def abs_mult)
  have p: "0 \<le> a"
    by (simp add: a_def)
  have "0.94 * a \<le> 1 * a"
    by (rule mult_right_mono) (simp_all add: p)
  then show "\<bar>v * (0.94::real) ^ Suc n\<bar> \<le> \<bar>v * 0.94 ^ n\<bar>"
    unfolding e by (simp add: a_def)
  assume "v \<noteq> 0"
  then have "0 < a"
    by (simp add: a_def)
  then have "0.94 * a < 1 * a"
    by (intro mult_strict_right_mono) simp_all
  then show "\<bar>v * (0.94::real) ^ Suc n\<bar> < \<bar>v * 0.94 ^ n\<bar>"
    unfolding e by (simp add: a_def)
qed

lemma decay_sign: "sgn (v * (0.94::real) ^ n) = sgn v"
  by (simp add: sgn_mult)

text \<open>
  Claim C5.  Let the viewer be at rest after a drag, with residual velocity \<open>v0\<close>.
  After \<open>n\<close> executed steps without pointer input the velocity is
  \<open>v0 * 0.94 ^ n\<close>, in real arithmetic.  Its magnitude never grows from one step to
  the next and shrinks when \<open>v0\<close> is not zero, its sign is the sign of \<open>v0\<close>, and it
  tends to zero.  Every such step turns the aircraft by the decayed velocity and by the
  idle increment of the device, which is positive.  A step that the throttle skips
  leaves the velocity as it is.
\<close>
theorem inertia_decay:
  assumes "\<not> isDragging s" and "velX s = Some v0"
  shows "velX (executed_steps stamps s) = Some (v0 * 0.94 ^ length stamps)
    \<and> velX (executed_steps (stamps @ [currentTime]) s) = Some (v0 * 0.94 ^ Suc (length stamps))
    \<and> \<bar>v0 * 0.94 ^ Suc (length stamps)\<bar> \<le> \<bar>v0 * 0.94 ^ length stamps\<bar>
    \<and> (v0 \<noteq> 0 \<longrightarrow> \<bar>v0 * 0.94 ^ Suc (length stamps)\<bar> < \<bar>v0 * 0.94 ^ length stamps\<bar>)
    \<and> sgn (v0 * 0.94 ^ length stamps) = sgn v0
    \<and> (\<lambda>n. v0 * 0.94 ^ n) \<longlonglongrightarrow> 0
    \<and> rotationY (frame_body currentTime (executed_steps stamps s)) =
        js_add (js_add (rotationY (executed_steps stamps s))
                  (Some (v0 * 0.94 ^ Suc (length stamps))))
          (Some (idleRotation_of (isMobile s)))
    \<and> 0 < idleRotation_of (isMobile s)
    \<and> velX (animate currentTime s) =
        (if isMobile s \<and> currentTime - lastFrameTime s < frameInterval_of (isMobile s)
         then Some v0 else Some (v0 * 0.94))"
proof -
  note run = executed_steps_idle [OF assms]
  have a: "velX (executed_steps stamps s) = Some (v0 * 0.94 ^ length stamps)" for stamps
    using run [of stamps] by simp
  have b: "velX (executed_steps (stamps @ [currentTime]) s) = Some (v0 * 0.94 ^ Suc (length stamps))"
    using a [of "stamps @ [currentTime]"] by simp
  have m: "isMobile (executed_steps stamps s) = isMobile s"
    unfolding executed_steps_def
    by (induction stamps rule: rev_induct) (simp_all add: frame_body_def Let_def spin_def)
  have d: "\<not> isDragging (executed_steps stamps s)"
    using run [of stamps] by simp
  have r: "rotationY (frame_body currentTime (executed_steps stamps s)) =
        js_add (js_add (rotationY (executed_steps stamps s))
                  (Some (v0 * 0.94 ^ Suc (length stamps))))
          (Some (idleRotation_of (isMobile s)))"
    using frame_body_idle [OF d a [of stamps], of currentTime] by (simp add: m mult_ac)
  have i: "0 < idleRotation_of (isMobile s)"
    by (simp add: idleRotation_of_def)
  have q: "velX (requestAnimationFrame s) = Some v0" "\<not> isDragging (requestAnimationFrame s)"
    "isMobile (requestAnimationFrame s) = isMobile s"
    "lastFrameTime (requestAnimationFrame s) = lastFrameTime s"
    using assms by (simp_all add: requestAnimationFrame_def)
  have an: "velX (animate currentTime s) =
        (if isMobile s \<and> currentTime - lastFrameTime s < frameInterval_of (isMobile s)
         then Some v0 else Some (v0 * 0.94))"
    using frame_body_idle [OF q(2) q(1), of currentTime]
    by (cases "isMobile s") (simp_all add: animate_def Let_def q)
  from a [of stamps] b decay_magnitude [of v0 "length stamps"] decay_sign [of v0 "length stamps"]
    decay_tendsto_zero [of v0] r i an
  show ?thesis
    by blast
qed

theorem inertia_decay_witness:
  "case desktop_mount of
     Inl err \<Rightarrow> False
   | Inr s0 \<Rightarrow>
       velX (onUp (ray_at 300 200 eng1) layout (MouseEvent 410 300)
               (gesture (ray_at 300 200 eng1) (layout, MouseEvent 400 300)
                  [(layout, MouseEvent 410 300)] s0)) = Some 0.12
       \<and> velX (executed_steps [16, 33, 50]
                 (onUp (ray_at 300 200 eng1) layout (MouseEvent 410 300)
                    (gesture (ray_at 300 200 eng1) (layout, MouseEvent 400 300)
                       [(layout, MouseEvent 410 300)] s0))) = Some (0.12 * 0.94 ^ 3)
       \<and> \<bar>0.12 * 0.94 ^ 4\<bar> < \<bar>0.12 * (0.94::real) ^ 3\<bar>"
proof -
  obtain s0 where s0: "desktop_mount = Inr s0"
    using desktop_mount_ok by blast
  let ?s = "onUp (ray_at 300 200 eng1) layout (MouseEvent 410 300)
               (gesture (ray_at 300 200 eng1) (layout, MouseEvent 400 300)
                  [(layout, MouseEvent 410 300)] s0)"
  have d: "\<not> isDragging ?s"
    by (simp add: onUp_def Let_def)
  have v: "velX ?s = Some 0.12"
    by (simp add: onUp_def Let_def setSelected_def gesture_def onDown_def onMove_def drag_def
        hover_def getXY_def layout_def js_sub_def js_mul_def js_lift2_def)
  note th = inertia_decay [OF d v, of "[16, 33, 50]" 66]
  have a: "velX (executed_steps [16, 33, 50] ?s) = Some (0.12 * 0.94 ^ 3)"
    using th [THEN conjunct1] by (simp add: power3_eq_cube)
  have b: "\<bar>0.12 * 0.94 ^ 4\<bar> < \<bar>0.12 * (0.94::real) ^ 3\<bar>"
    using th [THEN conjunct2, THEN conjunct2, THEN conjunct2, THEN conjunct1] by simp
  from v a b show ?thesis
    by (simp add: s0)
qed

section \<open>Properties of the life cycle and of the orbit\<close>

subsection \<open>What each handler leaves alone\<close>

lemma onDown_env:
  "listeners (onDown r e s) = listeners s" "rafQueue (onDown r e s) = rafQueue s"
  "rafId (onDown r e s) = rafId s" "frames (onDown r e s) = frames s"
  "rotationX (onDown r e s) = rotationX s"
  by (simp_all add: onDown_def Let_def)

lemma onMove_env:
  "listeners (onMove rc r e s) = listeners s" "rafQueue (onMove rc r e s) = rafQueue s"
  "rafId (onMove rc r e s) = rafId s" "frames (onMove rc r e s) = frames s"
  by (simp_all add: onMove_def Let_def drag_def hover_def split: dom_event.splits)

lemma onUp_env:
  "listeners (onUp rc r e s) = listeners s" "rafQueue (onUp rc r e s) = rafQueue s"
  "rafId (onUp rc r e s) = rafId s" "frames (onUp rc r e s) = frames s"
  "rotationX (onUp rc r e s) = rotationX s" "lastX (onUp rc r e s) = lastX s"
  "lastY (onUp rc r e s) = lastY s"
  by (simp_all add: onUp_def Let_def setSelected_def)

lemma onResize_env:
  "listeners (onResize r s) = listeners s" "rafQueue (onResize r s) = rafQueue s"
  "rafId (onResize r s) = rafId s" "frames (onResize r s) = frames s"
  "rotationX (onResize r s) = rotationX s" "lastX (onResize r s) = lastX s"
  "lastY (onResize r s) = lastY s"
  by (simp_all add: onResize_def)

lemma call_handler_env:
  "listeners (call_handler rc h r e s) = listeners s"
  "rafQueue (call_handler rc h r e s) = rafQueue s"
  "rafId (call_handler rc h r e s) = rafId s"
  "frames (call_handler rc h r e s) = frames s"
  by (cases h; simp add: call_handler_def onDown_env onMove_env onUp_env onResize_env)+

lemma frame_body_env:
  "listeners (frame_body c s) = listeners s" "rafQueue (frame_body c s) = rafQueue s"
  "rafId (frame_body c s) = rafId s"
  "rotationX (frame_body c s) = rotationX s" "lastX (frame_body c s) = lastX s"
  "lastY (frame_body c s) = lastY s"
  by (simp_all add: frame_body_def Let_def spin_def)

lemma animate_env:
  "listeners (animate c s) = listeners s"
  "rotationX (animate c s) = rotationX s" "lastX (animate c s) = lastX s"
  "lastY (animate c s) = lastY s"
  "rafQueue (animate c s) = rafQueue s @ [rafCounter s]"
  "rafId (animate c s) = Some (rafCounter s)"
  by (simp_all add: animate_def Let_def frame_body_env requestAnimationFrame_def)

subsection \<open>The life-cycle invariant\<close>

lemma dispatch_torn_down: "listeners s = [] \<Longrightarrow> dispatch rc tg ty r e s = s"
  by (simp add: dispatch_def)

lemma dispatch_table:
  "listeners s = mounted_listeners \<Longrightarrow>
     dispatch rc tg ty r e s =
       (case (tg, ty) of
          (Mount, MouseDown) \<Rightarrow> onDown r e s
        | (Mount, TouchStart) \<Rightarrow> onDown r e s
        | (Window, MouseMove) \<Rightarrow> onMove rc r e s
        | (Mount, TouchMove) \<Rightarrow> onMove rc r e s
        | (Window, MouseUp) \<Rightarrow> onUp rc r e s
        | (Mount, TouchEnd) \<Rightarrow> onUp rc r e s
        | (Mount, TouchCancel) \<Rightarrow> onUp rc r e s
        | (Window, Resize) \<Rightarrow> onResize r s
        | _ \<Rightarrow> s)"
  by (cases tg; cases ty)
     (simp_all add: dispatch_def mounted_listeners_def pointer_listeners_def call_handler_def)

lemma dispatch_env:
  assumes "lifecycle_inv s"
  shows "listeners (dispatch rc tg ty r e s) = listeners s"
    and "rafQueue (dispatch rc tg ty r e s) = rafQueue s"
    and "rafId (dispatch rc tg ty r e s) = rafId s"
    and "frames (dispatch rc tg ty r e s) = frames s"
proof -
  from assms consider "listeners s = mounted_listeners" | "listeners s = []"
    by (auto simp: lifecycle_inv_def)
  then have "listeners (dispatch rc tg ty r e s) = listeners s
      \<and> rafQueue (dispatch rc tg ty r e s) = rafQueue s
      \<and> rafId (dispatch rc tg ty r e s) = rafId s
      \<and> frames (dispatch rc tg ty r e s) = frames s"
  proof cases
    case 1
    show ?thesis
      unfolding dispatch_table [OF 1]
      by (cases tg; cases ty) (simp_all add: onDown_env onMove_env onUp_env onResize_env)
  next
    case 2
    then show ?thesis by (simp add: dispatch_torn_down)
  qed
  then show "listeners (dispatch rc tg ty r e s) = listeners s"
    and "rafQueue (dispatch rc tg ty r e s) = rafQueue s"
    and "rafId (dispatch rc tg ty r e s) = rafId s"
    and "frames (dispatch rc tg ty r e s) = frames s"
    by simp_all
qed

lemma run_frame_cases:
  assumes "lifecycle_inv s"
  shows "(rafQueue s = [] \<and> run_frame c s = s)
    \<or> (rafQueue s \<noteq> [] \<and> run_frame c s = animate c (s\<lparr> rafQueue := [] \<rparr>))"
proof (cases "rafQueue s")
  case Nil
  then show ?thesis by (simp add: run_frame_def)
next
  case (Cons k ks)
  with assms have "ks = []"
    by (simp add: lifecycle_inv_def)
  with Cons show ?thesis by (simp add: run_frame_def)
qed

lemma run_frame_inv: "lifecycle_inv s \<Longrightarrow> lifecycle_inv (run_frame c s)"
  using run_frame_cases [of s c]
  by (auto simp: lifecycle_inv_def animate_env)

lemma removeAll_mounted:
  "ls = mounted_listeners \<or> ls = [] \<Longrightarrow>
     foldl (\<lambda>ls l. removeEventListener l ls) ls
       (pointer_listeners @ [(Window, Resize, OnResize)]) = []"
  by (auto simp: mounted_listeners_def pointer_listeners_def removeEventListener_def)

lemma cleanup_torn_down:
  assumes "lifecycle_inv s"
  shows "listeners (cleanup s) = [] \<and> rafQueue (cleanup s) = []
    \<and> disposed (cleanup s) \<and> \<not> canvasAttached (cleanup s)
    \<and> frames (cleanup s) = frames s \<and> rafId (cleanup s) = rafId s"
proof -
  from assms have l: "listeners s = mounted_listeners \<or> listeners s = []"
    and q: "rafQueue s = [] \<or> map Some (rafQueue s) = [rafId s]"
    by (simp_all add: lifecycle_inv_def)
  have c: "rafQueue (cancelAnimationFrame (rafId s) s) = []"
    using q by (auto simp: cancelAnimationFrame_def split: option.splits)
  have o: "listeners (cancelAnimationFrame (rafId s) s) = listeners s"
    "frames (cancelAnimationFrame (rafId s) s) = frames s"
    "rafId (cancelAnimationFrame (rafId s) s) = rafId s"
    by (simp_all add: cancelAnimationFrame_def split: option.splits)
  show ?thesis
    using removeAll_mounted [OF l] by (simp add: cleanup_def Let_def c o)
qed

lemma cleanup_inv: "lifecycle_inv s \<Longrightarrow> lifecycle_inv (cleanup s)"
  using cleanup_torn_down [of s] by (simp add: lifecycle_inv_def)

lemma step_lifecycle_inv: "lifecycle_inv s \<Longrightarrow> lifecycle_inv (step rc a s)"
proof (cases a)
  case (Dispatch tg ty r e)
  assume "lifecycle_inv s"
  from dispatch_env [OF this, of rc tg ty r e] this show ?thesis
    by (simp add: Dispatch lifecycle_inv_def)
next
  case (AnimationFrame c)
  assume "lifecycle_inv s"
  then show ?thesis by (simp add: AnimationFrame run_frame_inv)
next
  case Cleanup
  assume "lifecycle_inv s"
  then show ?thesis by (simp add: Cleanup cleanup_inv)
next
  case (CallResize r)
  assume "lifecycle_inv s"
  then show ?thesis by (simp add: CallResize lifecycle_inv_def onResize_env)
qed

lemma run_snoc: "run rc (acts @ [a]) s = step rc a (run rc acts s)"
  by (simp add: run_def)

lemma run_lifecycle_inv: "lifecycle_inv s \<Longrightarrow> lifecycle_inv (run rc acts s)"
  by (induction acts rule: rev_induct) (simp_all add: run_def step_lifecycle_inv)

lemma mounted_listeners_registered:
  "foldl (\<lambda>ls l. addEventListener l ls) [] pointer_listeners = pointer_listeners"
  by (simp add: pointer_listeners_def addEventListener_def)

lemma mountViewer_state:
  assumes "mountViewer userAgent innerWidth r sensors = Inr s"
  shows "listeners s = mounted_listeners" and "rafQueue s = [1]" and "rafId s = Some 1"
    and "rotationX s = Some 0" and "lastX s = Some 0" and "lastY s = Some 0"
    and "\<not> disposed s" and "canvasAttached s"
  using assms
  by (auto simp: mountViewer_def Let_def animate_env mounted_listeners_registered
      mounted_listeners_def addEventListener_def pointer_listeners_def animate_def
      requestAnimationFrame_def frame_body_def spin_def
      split: sum.splits if_splits)

lemma mountViewer_lifecycle_inv:
  "mountViewer userAgent innerWidth r sensors = Inr s \<Longrightarrow> lifecycle_inv s"
  using mountViewer_state(1-3) [of userAgent innerWidth r sensors s]
  by (simp add: lifecycle_inv_def)

subsection \<open>After the teardown\<close>

lemma torn_down_step:
  assumes "listeners s = []" and "rafQueue s = []"
  shows "listeners (step rc a s) = [] \<and> rafQueue (step rc a s) = []
    \<and> frames (step rc a s) = frames s"
proof (cases a)
  case (Dispatch tg ty r e)
  with assms show ?thesis by (simp add: dispatch_torn_down)
next
  case (AnimationFrame c)
  with assms show ?thesis by (simp add: run_frame_def)
next
  case Cleanup
  from assms have "lifecycle_inv s"
    by (simp add: lifecycle_inv_def)
  from cleanup_torn_down [OF this] Cleanup show ?thesis by simp
next
  case (CallResize r)
  with assms show ?thesis by (simp add: onResize_env)
qed

lemma torn_down_run:
  assumes "listeners s = []" and "rafQueue s = []"
  shows "listeners (run rc acts s) = [] \<and> rafQueue (run rc acts s) = []
    \<and> frames (run rc acts s) = frames s"
proof (induction acts rule: rev_induct)
  case Nil
  from assms show ?case by (simp add: run_def)
next
  case (snoc a acts)
  then have l: "listeners (run rc acts s) = []" and q: "rafQueue (run rc acts s) = []"
    and f: "frames (run rc acts s) = frames s"
    by simp_all
  from torn_down_step [OF l q, of rc a] f show ?case
    by (simp add: run_snoc)
qed

lemma cleanup_again:
  assumes "listeners s = []" and "rafQueue s = []" and "disposed s" and "\<not> canvasAttached s"
  shows "cleanup s = s"
  using assms
  by (cases s)
     (simp add: cleanup_def Let_def cancelAnimationFrame_def removeEventListener_def
        pointer_listeners_def split: option.splits)

text \<open>
  Claim C9.  Take a viewer that was mounted and has seen any actions, and tear it
  down.  Then no listener is registered and no animation-frame request is pending, the
  canvas is out of the document and the renderer is disposed.  Whatever happens next
  (frames of the browser, events of any type, a second teardown, a direct call of the
  resize handler), the number of rendered frames stays what it was at the teardown.  A
  second teardown changes nothing at all, a resize event after the teardown reaches no
  handler, and a direct call of the resize handler renders nothing.  The handlers
  involved have no statement that throws.
\<close>
theorem teardown_is_final:
  assumes "mountViewer userAgent innerWidth r sensors = Inr s0"
    and "s = cleanup (run rc before s0)"
  shows "listeners s = [] \<and> rafQueue s = [] \<and> disposed s \<and> \<not> canvasAttached s
    \<and> frames s = frames (run rc before s0)
    \<and> frames (run rc after s) = frames s
    \<and> listeners (run rc after s) = [] \<and> rafQueue (run rc after s) = []
    \<and> cleanup s = s
    \<and> frames (onResize r' s) = frames s
    \<and> dispatch rc Window Resize r' e s = s
    \<and> run_frame currentTime s = s"
proof -
  have "lifecycle_inv s0"
    using assms(1) by (rule mountViewer_lifecycle_inv)
  then have "lifecycle_inv (run rc before s0)"
    by (rule run_lifecycle_inv)
  from cleanup_torn_down [OF this]
  have l: "listeners s = []" and q: "rafQueue s = []" and d: "disposed s"
    and c: "\<not> canvasAttached s" and f: "frames s = frames (run rc before s0)"
    by (simp_all add: assms(2))
  note after = torn_down_run [OF l q, of rc after]
  have again: "cleanup s = s"
    using l q d c by (rule cleanup_again)
  have rs: "frames (onResize r' s) = frames s"
    by (simp add: onResize_env)
  have dr: "dispatch rc Window Resize r' e s = s"
    using l by (rule dispatch_torn_down)
  have fr: "run_frame currentTime s = s"
    using q by (simp add: run_frame_def)
  from l q d c f after again rs dr fr show ?thesis
    by simp
qed

theorem teardown_is_final_witness:
  "case desktop_mount of
     Inl err \<Rightarrow> False
   | Inr s0 \<Rightarrow>
       frames (run (ray_at 300 200 eng1) [AnimationFrame 16] s0) = 2
       \<and> frames (run (ray_at 300 200 eng1)
                  [AnimationFrame 33, Dispatch Window Resize layout (MouseEvent 0 0),
                   Cleanup, CallResize layout, AnimationFrame 50]
                  (cleanup (run (ray_at 300 200 eng1) [AnimationFrame 16] s0))) = 2
       \<and> listeners (cleanup (run (ray_at 300 200 eng1) [AnimationFrame 16] s0)) = []
       \<and> cleanup (cleanup (run (ray_at 300 200 eng1) [AnimationFrame 16] s0))
           = cleanup (run (ray_at 300 200 eng1) [AnimationFrame 16] s0)"
proof -
  obtain s0 where s0: "desktop_mount = Inr s0"
    using desktop_mount_ok by blast
  note m = s0 [unfolded desktop_mount_def]
  note st = mountViewer_state [OF m]
  have f0: "frames s0 = 1"
    using m by (auto simp: mountViewer_def Let_def animate_def requestAnimationFrame_def
        frame_body_def spin_def detect_mobile_def handheld_pattern_def canonicalize_def
        split: sum.splits if_splits)
  have mob: "\<not> isMobile s0"
    using mountViewer_isMobile [OF m]
    by (simp add: detect_mobile_def handheld_pattern_def canonicalize_def)
  have f1: "frames (run (ray_at 300 200 eng1) [AnimationFrame 16] s0) = 2"
    using st f0 mob
    by (simp add: run_def run_frame_def animate_def Let_def requestAnimationFrame_def
        frame_body_def spin_def)
  note th = teardown_is_final [OF m refl, of "ray_at 300 200 eng1" "[AnimationFrame 16]"
      "[AnimationFrame 33, Dispatch Window Resize layout (MouseEvent 0 0),
        Cleanup, CallResize layout, AnimationFrame 50]" layout "MouseEvent 0 0" 50]
  from th f1 show ?thesis
    by (simp add: s0)
qed

subsection \<open>The orbit invariant\<close>

lemma clamp_number:
  "clamp (Some v) (Some lo) (Some hi) = Some (min (max v lo) hi)"
  by (simp add: clamp_def js_min_def js_max_def js_lift2_def)

lemma getXY_has_point:
  "has_point e \<Longrightarrow> \<exists>x y. getXY r e = (Some x, Some y)"
  by (cases e) (auto simp: has_point_def getXY_def js_sub_def js_lift2_def split: list.splits)

lemma onDown_orbit_inv: "has_point e \<Longrightarrow> orbit_inv s \<Longrightarrow> orbit_inv (onDown r e s)"
  using getXY_has_point [of e r]
  by (auto simp: orbit_inv_def onDown_def Let_def)

lemma drag_rotationX:
  assumes "rotationX s = Some x" and "lastY s = Some ly" and "cy = Some y"
  shows "rotationX (drag cx cy s) = Some (min (max (x + (y - ly) * 0.006) (- 0.7)) 0.7)"
  using assms
  by (simp add: drag_def Let_def js_add_def js_sub_def js_mul_def js_lift2_def clamp_number)

lemma clamp_bounds:
  "lo \<le> hi \<Longrightarrow> lo \<le> min (max v lo) hi \<and> min (max v lo) hi \<le> (hi::real)"
  by auto

lemma drag_orbit_inv:
  assumes "orbit_inv s"
  shows "orbit_inv (drag (Some x) (Some y) s)"
proof -
  from assms obtain a ly where a: "rotationX s = Some a" and ly: "lastY s = Some ly"
    by (auto simp: orbit_inv_def split: option.splits)
  define c where "c = min (max (a + (y - ly) * 0.006) (- 0.7)) (0.7::real)"
  have l: "lastX (drag (Some x) (Some y) s) = Some x" "lastY (drag (Some x) (Some y) s) = Some y"
    by (simp_all add: drag_def Let_def)
  have rx: "rotationX (drag (Some x) (Some y) s) = Some c"
    unfolding c_def by (rule drag_rotationX [OF a ly refl])
  have "- 0.7 \<le> c \<and> c \<le> 0.7"
    unfolding c_def by (rule clamp_bounds) simp
  with l rx show ?thesis
    by (simp add: orbit_inv_def)
qed

lemma hover_orbit_inv: "orbit_inv (hover rc cx cy s) = orbit_inv s"
  by (simp add: orbit_inv_def hover_def Let_def)

lemma onMove_orbit_inv:
  assumes "has_point e" and "orbit_inv s"
  shows "orbit_inv (onMove rc r e s)"
proof -
  from getXY_has_point [OF assms(1), of r] obtain x y where xy: "getXY r e = (Some x, Some y)"
    by blast
  define s1 where "s1 = (if isDragging s then drag (Some x) (Some y) s else s)"
  have eq: "onMove rc r e s =
      (case e of TouchEvent ts cs \<Rightarrow> s1 | MouseEvent a b \<Rightarrow> hover rc (Some x) (Some y) s1)"
    by (simp add: onMove_def Let_def xy s1_def split: dom_event.split)
  have "orbit_inv s1"
    using assms(2) by (simp add: s1_def drag_orbit_inv)
  then show ?thesis
    unfolding eq by (cases e) (simp_all add: hover_orbit_inv)
qed

lemma onUp_orbit_inv: "orbit_inv (onUp rc r e s) = orbit_inv s"
  by (simp add: orbit_inv_def onUp_env)

lemma onResize_orbit_inv: "orbit_inv (onResize r s) = orbit_inv s"
  by (simp add: orbit_inv_def onResize_env)

lemma animate_orbit_inv: "orbit_inv (animate c s) = orbit_inv s"
  by (simp add: orbit_inv_def animate_env)

lemma cleanup_orbit_inv: "orbit_inv (cleanup s) = orbit_inv s"
  by (simp add: orbit_inv_def cleanup_def Let_def cancelAnimationFrame_def split: option.splits)

lemma run_frame_orbit_inv:
  "lifecycle_inv s \<Longrightarrow> orbit_inv (run_frame c s) = orbit_inv s"
  using run_frame_cases [of s c]
  by (auto simp: animate_orbit_inv) (simp_all add: orbit_inv_def)

lemma dispatch_orbit_inv:
  assumes "lifecycle_inv s" and "orbit_inv s" and "well_formed (Dispatch tg ty r e)"
  shows "orbit_inv (dispatch rc tg ty r e s)"
proof -
  from assms(1) consider "listeners s = mounted_listeners" | "listeners s = []"
    by (auto simp: lifecycle_inv_def)
  then show ?thesis
  proof cases
    case 1
    show ?thesis
      unfolding dispatch_table [OF 1]
      using assms(2,3)
      by (cases tg; cases ty)
         (simp_all add: onDown_orbit_inv onMove_orbit_inv onUp_orbit_inv onResize_orbit_inv)
  next
    case 2
    with assms(2) show ?thesis by (simp add: dispatch_torn_down)
  qed
qed

lemma step_orbit_inv:
  assumes "lifecycle_inv s" and "orbit_inv s" and "well_formed a"
  shows "orbit_inv (step rc a s)"
proof (cases a)
  case (Dispatch tg ty r e)
  with dispatch_orbit_inv [OF assms(1,2), of tg ty r e rc] assms(3) show ?thesis
    by simp
next
  case (AnimationFrame c)
  with assms show ?thesis by (simp add: run_frame_orbit_inv)
next
  case Cleanup
  with assms show ?thesis by (simp add: cleanup_orbit_inv)
next
  case (CallResize r)
  with assms show ?thesis by (simp add: onResize_orbit_inv)
qed

lemma run_orbit_inv:
  assumes "lifecycle_inv s" and "orbit_inv s" and "\<forall>a \<in> set acts. well_formed a"
  shows "orbit_inv (run rc acts s)"
  using assms(3)
proof (induction acts rule: rev_induct)
  case Nil
  from assms(2) show ?case by (simp add: run_def)
next
  case (snoc a acts)
  then have o: "orbit_inv (run rc acts s)" and w: "well_formed a"
    by simp_all
  have l: "lifecycle_inv (run rc acts s)"
    using assms(1) by (rule run_lifecycle_inv)
  from step_orbit_inv [OF l o w] show ?case
    by (simp add: run_snoc)
qed

text \<open>
  Claim C4.  A mounted viewer starts with \<open>rotationX = 0\<close>.  After any sequence of
  actions whose pointer events are as the browser delivers them, \<open>rotationX\<close> is a
  number between \<open>-0.7\<close> and \<open>0.7\<close>; since every prefix of such a sequence is such a
  sequence, this holds at all times.  A move during a drag sets \<open>rotationX\<close> to the
  old value plus 0.006 times the vertical delta, clamped to that interval.
\<close>
theorem rotationX_bounded:
  assumes "mountViewer userAgent innerWidth r sensors = Inr s0"
    and "\<forall>a \<in> set acts. well_formed a"
  shows "rotationX s0 = Some 0
    \<and> (\<exists>x. rotationX (run rc acts s0) = Some x \<and> - 0.7 \<le> x \<and> x \<le> 0.7)
    \<and> (\<forall>s x ly r' e y.
          isDragging s \<and> rotationX s = Some x \<and> lastY s = Some ly
          \<and> snd (getXY r' e) = Some y \<longrightarrow>
          rotationX (onMove rc r' e s) = Some (min (max (x + (y - ly) * 0.006) (- 0.7)) 0.7))"
proof -
  note st = mountViewer_state [OF assms(1)]
  have l: "lifecycle_inv s0"
    using assms(1) by (rule mountViewer_lifecycle_inv)
  have o: "orbit_inv s0"
    using st by (simp add: orbit_inv_def)
  from run_orbit_inv [OF l o assms(2), of rc]
  have b: "\<exists>x. rotationX (run rc acts s0) = Some x \<and> - 0.7 \<le> x \<and> x \<le> 0.7"
    by (auto simp: orbit_inv_def split: option.splits)
  have m: "rotationX (onMove rc r' e s) = Some (min (max (x + (y - ly) * 0.006) (- 0.7)) 0.7)"
    if "isDragging s" "rotationX s = Some x" "lastY s = Some ly" "snd (getXY r' e) = Some y"
    for s x ly r' e y
    using drag_rotationX [OF that(2,3,4), of "fst (getXY r' e)"] that(1)
    by (cases e) (simp_all add: onMove_def Let_def hover_def)
  from st(4) b m show ?thesis
    by blast
qed

theorem rotationX_bounded_witness:
  "case desktop_mount of
     Inl err \<Rightarrow> False
   | Inr s0 \<Rightarrow>
       rotationX s0 = Some 0
       \<and> rotationX (run (ray_at 300 200 eng1)
            [Dispatch Mount MouseDown layout (MouseEvent 400 300),
             Dispatch Window MouseMove layout (MouseEvent 400 700),
             AnimationFrame 16,
             Dispatch Window MouseUp layout (MouseEvent 400 700)] s0) = Some 0.7
       \<and> rotationX (onMove (ray_at 300 200 eng1) layout (MouseEvent 400 350)
            (onDown layout (MouseEvent 400 300) s0)) = Some 0.3"
proof -
  obtain s0 where s0: "desktop_mount = Inr s0"
    using desktop_mount_ok by blast
  note m = s0 [unfolded desktop_mount_def]
  note st = mountViewer_state [OF m]
  let ?acts = "[Dispatch Mount MouseDown layout (MouseEvent 400 300),
             Dispatch Window MouseMove layout (MouseEvent 400 700),
             AnimationFrame 16,
             Dispatch Window MouseUp layout (MouseEvent 400 700)]"
  have w: "\<forall>a \<in> set ?acts. well_formed a"
    by (simp add: has_point_def)
  note th = rotationX_bounded [OF m w, of "ray_at 300 200 eng1"]
  have a: "rotationX s0 = Some 0"
    using th by simp
  from th obtain x where x: "rotationX (run (ray_at 300 200 eng1) ?acts s0) = Some x"
    and lo: "- 0.7 \<le> x" and hi: "x \<le> 0.7"
    by blast
  have v: "rotationX (run (ray_at 300 200 eng1) ?acts s0) = Some 0.7"
    using st
    by (simp add: run_def dispatch_def mounted_listeners_def pointer_listeners_def
        call_handler_def onDown_def onMove_def onUp_def drag_def hover_def getXY_def
        layout_def Let_def js_sub_def js_add_def js_mul_def js_abs_def js_lift2_def
        clamp_def js_min_def js_max_def run_frame_def animate_env setSelected_def)
  have d: "isDragging (onDown layout (MouseEvent 400 300) s0)
      \<and> rotationX (onDown layout (MouseEvent 400 300) s0) = Some 0
      \<and> lastY (onDown layout (MouseEvent 400 300) s0) = Some 200
      \<and> snd (getXY layout (MouseEvent 400 350)) = Some 250"
    using a
    by (simp add: onDown_def Let_def getXY_def layout_def js_sub_def js_lift2_def)
  from th have "rotationX (onMove (ray_at 300 200 eng1) layout (MouseEvent 400 350)
            (onDown layout (MouseEvent 400 300) s0))
          = Some (min (max (0 + (250 - 200) * 0.006) (- 0.7)) 0.7)"
    using d by blast
  then have c: "rotationX (onMove (ray_at 300 200 eng1) layout (MouseEvent 400 350)
            (onDown layout (MouseEvent 400 300) s0)) = Some 0.3"
    by simp
  from a v c x lo hi show ?thesis
    by (simp add: s0)
qed

end
